theory Spec2Isabelle
  imports Complex_Main
begin

section \<open>Conventions of the embedding\<close>

text \<open>
  The two notebooks (Bruhin, Fehr and Schunk 2019: discrete choice; Augenblick and
  Rabin 2019: effort choice) compute with numpy \<open>float64\<close> arrays. A float is modelled
  as a \<open>real\<close> and the arithmetic is exact: rounding, overflow and underflow are outside
  the model. What is inside the model is every place where the source leaves the finite
  reals or raises:
  \<^item> \<open>IndexError\<close>, \<open>ValueError\<close>, \<open>ZeroDivisionError\<close>: the Python exception of that name
    is raised (indexing an empty sequence, a shape mismatch, a division of Python
    numbers by zero);
  \<^item> \<open>NotFinite\<close>: nothing is raised, but a numpy operation yields \<open>inf\<close> or \<open>nan\<close>
    (numpy only warns): a logarithm or a power outside its domain, a division of array
    entries by zero. The model stops there and says nothing about what the float
    computation goes on to return.

  The one place where the special values of \<open>float64\<close> are themselves modelled is the
  last step of \<open>loglike_dummy\<close> (\<open>loglike_dummy_f64\<close> below), which takes logarithms
  of probabilities that float arithmetic may have taken to 0 or to \<open>nan\<close>.
\<close>

datatype fault = IndexError | ValueError | ZeroDivisionError | NotFinite

type_synonym vec = "real list"
type_synonym mat = "real list list"


section \<open>Effort model: the clamping step of \<open>negloglike\<close>\<close>

text \<open>
  \<^verbatim>\<open>
  index_p0 = [i for i in range(0,len(prob)) if prob[i]==0]
  index_p1 = [i for i in range(0,len(prob)) if prob[i]==1]
  for i in index_p0:
      prob[i] = 1E-4
  for i in index_p1:
      prob[i] = 1 - 1E-4
  \<close>
  Both index lists are read off the vector before either loop writes to it.
\<close>

definition index_p0 :: "vec \<Rightarrow> nat list" where
  "index_p0 prob = filter (\<lambda>i. prob ! i = 0) [0..<length prob]"

definition index_p1 :: "vec \<Rightarrow> nat list" where
  "index_p1 prob = filter (\<lambda>i. prob ! i = 1) [0..<length prob]"

definition clamp_prob :: "vec \<Rightarrow> vec" where
  "clamp_prob prob =
     fold (\<lambda>i p. p[i := 1 - 1 / 10000]) (index_p1 prob)
       (fold (\<lambda>i p. p[i := 1 / 10000]) (index_p0 prob) prob)"


section \<open>Discrete-choice model: the delta method for the sensitivity parameter\<close>

text \<open>
  \<^verbatim>\<open>se_s1 = [*se_s1[0:-1],np.sqrt(np.exp(res_s1[-1])**2*se_s1[-1]**2)]\<close>
  (and the same line for session 2). The slice of an empty vector is empty; the index
  \<open>-1\<close> of an empty vector raises.
\<close>

definition se_delta :: "vec \<Rightarrow> vec \<Rightarrow> fault + vec" where
  "se_delta res se =
     (if res = [] \<or> se = [] then Inl IndexError
      else Inr (butlast se @ [sqrt ((exp (last res))\<^sup>2 * (last se)\<^sup>2)]))"


section \<open>The degrees-of-freedom adjustment\<close>

text \<open>
  The counts are Python integers (\<open>len(...)\<close>), \<open>/\<close> is true division and raises on a
  zero divisor.
  \<^verbatim>\<open>
  adj = (len(dt1.self_x)-1) / (len(dt1.self_x)-len(res_s1))
        * (len(np.unique(dt1.sid))/(len(np.unique(dt1.sid))-1))
  adj = (len(dt.wid)-1)/(len(dt.wid)-len(res)) * len(np.unique(dt.wid))/(len(np.unique(dt.wid))-1)
  \<close>
  The first line is the discrete-choice notebook, the second the effort notebook, where
  the product is formed before the second division.
\<close>

definition py_truediv :: "real \<Rightarrow> real \<Rightarrow> fault + real" where
  "py_truediv a b = (if b = 0 then Inl ZeroDivisionError else Inr (a / b))"

definition adj_s1 :: "int \<Rightarrow> int \<Rightarrow> int \<Rightarrow> fault + real" where
  "adj_s1 N K J =
     (case py_truediv (of_int (N - 1)) (of_int (N - K)) of
        Inl e \<Rightarrow> Inl e
      | Inr a \<Rightarrow>
          (case py_truediv (of_int J) (of_int (J - 1)) of
             Inl e \<Rightarrow> Inl e
           | Inr b \<Rightarrow> Inr (a * b)))"

definition adj_ar :: "int \<Rightarrow> int \<Rightarrow> int \<Rightarrow> fault + real" where
  "adj_ar N K J =
     (case py_truediv (of_int (N - 1)) (of_int (N - K)) of
        Inl e \<Rightarrow> Inl e
      | Inr a \<Rightarrow> py_truediv (a * of_int J) (of_int (J - 1)))"

text \<open>The adjustment as the specification writes it.\<close>

definition spec_adj :: "int \<Rightarrow> int \<Rightarrow> int \<Rightarrow> real" where
  "spec_adj N K J = (of_int N - 1) / (of_int N - of_int K) * (of_int J / (of_int J - 1))"


section \<open>Shared helpers\<close>

text \<open>Sequencing of steps that may fail: the first fault ends the run.\<close>

definition bindF :: "fault + 'a \<Rightarrow> ('a \<Rightarrow> fault + 'b) \<Rightarrow> fault + 'b" where
  "bindF m f = (case m of Inl e \<Rightarrow> Inl e | Inr a \<Rightarrow> f a)"

fun collect :: "(fault + 'a) list \<Rightarrow> fault + 'a list" where
  "collect [] = Inr []"
| "collect (r # rs) =
     (case r of
        Inl e \<Rightarrow> Inl e
      | Inr a \<Rightarrow> (case collect rs of Inl e \<Rightarrow> Inl e | Inr as \<Rightarrow> Inr (a # as)))"

text \<open>
  numpy on array entries: \<open>np.log\<close> of a number that is not positive is \<open>-inf\<close> or
  \<open>nan\<close>, \<open>np.sqrt\<close> of a negative number is \<open>nan\<close>, a division by zero is \<open>inf\<close> or
  \<open>nan\<close>. A power \<open>b ** e\<close> of floats is finite for a positive base; for an integral
  exponent it is the repeated product (or its inverse, \<open>inf\<close> at base zero); base zero
  with a positive exponent gives zero; every other case is \<open>inf\<close> or \<open>nan\<close>.
\<close>

definition np_log :: "real \<Rightarrow> fault + real" where
  "np_log a = (if 0 < a then Inr (ln a) else Inl NotFinite)"

definition np_sqrt :: "real \<Rightarrow> fault + real" where
  "np_sqrt a = (if 0 \<le> a then Inr (sqrt a) else Inl NotFinite)"

definition np_div :: "real \<Rightarrow> real \<Rightarrow> fault + real" where
  "np_div a b = (if b = 0 then Inl NotFinite else Inr (a / b))"

definition np_power :: "real \<Rightarrow> real \<Rightarrow> fault + real" where
  "np_power b e =
     (if 0 < b then Inr (b powr e)
      else if e = of_int \<lfloor>e\<rfloor> then
        (if b = 0 \<and> e < 0 then Inl NotFinite else Inr (b powi \<lfloor>e\<rfloor>))
      else if b = 0 \<and> 0 < e then Inr 0
      else Inl NotFinite)"

text \<open>\<open>np.unique\<close>: the distinct entries, sorted.\<close>

definition np_unique :: "int list \<Rightarrow> int list" where
  "np_unique ids = sort (remdups ids)"

definition dot :: "vec \<Rightarrow> vec \<Rightarrow> real" where
  "dot a b = sum_list (map2 (\<lambda>p q. p * q) a b)"

definition vadd :: "vec \<Rightarrow> vec \<Rightarrow> vec" where
  "vadd a b = map2 (\<lambda>p q. p + q) a b"

definition outer :: "vec \<Rightarrow> vec \<Rightarrow> mat" where
  "outer a b = map (\<lambda>p. map (\<lambda>q. p * q) b) a"

definition mat_add :: "mat \<Rightarrow> mat \<Rightarrow> mat" where
  "mat_add A B = map2 vadd A B"

definition zeros :: "nat \<Rightarrow> mat" where
  "zeros k = replicate k (replicate k 0)"

text \<open>
  A two-dimensional array is the list of its rows; numpy arrays are rectangular, which
  \<open>is_mat\<close> says. \<open>A @ B\<close> raises when the rows of \<open>A\<close> are not as long as \<open>B\<close> has rows.
\<close>

definition is_mat :: "nat \<Rightarrow> nat \<Rightarrow> mat \<Rightarrow> bool" where
  "is_mat r c A = (length A = r \<and> list_all (\<lambda>row. length row = c) A)"

text \<open>A square array of side \<open>k\<close> that equals its transpose, entry by entry.\<close>

definition sym_mat :: "nat \<Rightarrow> mat \<Rightarrow> bool" where
  "sym_mat k S = (is_mat k k S \<and> (\<forall>i<k. \<forall>j<k. S ! i ! j = S ! j ! i))"

definition ncols :: "mat \<Rightarrow> nat" where
  "ncols A = (if A = [] then 0 else length (hd A))"

definition matmul :: "mat \<Rightarrow> mat \<Rightarrow> fault + mat" where
  "matmul A B =
     (if list_all (\<lambda>row. length row = length B) A
      then Inr (map (\<lambda>row. map (\<lambda>j. sum_list (map (\<lambda>k. row ! k * B ! k ! j) [0..<length B]))
                            [0..<ncols B]) A)
      else Inl ValueError)"

definition mat_scale :: "real \<Rightarrow> mat \<Rightarrow> mat" where
  "mat_scale c A = map (map (\<lambda>a. c * a)) A"

definition np_diag :: "mat \<Rightarrow> vec" where
  "np_diag A = map (\<lambda>i. A ! i ! i) [0..<min (length A) (ncols A)]"


section \<open>Discrete-choice model (Bruhin, Fehr and Schunk)\<close>

text \<open>
  One row of the data frame \<open>dt1\<close> (or \<open>dt2\<close>): the subject, the observed choice, the four
  payoffs, and the rows of \<open>indicators_x\<close> and \<open>indicators_y\<close> (the columns \<open>s, r, q, v\<close>).
  The columns the functions receive all come from one frame, so a batch is a list of
  rows.
\<close>

record obs =
  sid :: int
  choice_x :: int
  self_x :: real
  other_x :: real
  self_y :: real
  other_y :: real
  indicators_x :: vec
  indicators_y :: vec

text \<open>
  \<^verbatim>\<open>
  def loglike_dummy(v,y,self_x, other_x, self_y,other_y,indicators_x,indicators_y):
      beta = v[0:-1]
      sigma = np.exp(v[-1])
      lli = (indicators_x @ beta)
      rli = (indicators_y @ beta)
      uleft  = sigma*( (1-lli) * self_x + lli * other_x)
      uright = sigma*( (1-rli) * self_y + rli * other_y)
      probs  = (np.exp(uleft)/(np.exp(uleft)+np.exp(uright)))**y
               * (np.exp(uright)/(np.exp(uleft)+np.exp(uright)))**(1-y)
      nll = - np.sum(np.log(probs))
      return nll
  \<close>
  There is no clamping of \<open>probs\<close> in this function.
\<close>

definition lli :: "vec \<Rightarrow> obs \<Rightarrow> real" where
  "lli beta ob = dot (indicators_x ob) beta"

definition rli :: "vec \<Rightarrow> obs \<Rightarrow> real" where
  "rli beta ob = dot (indicators_y ob) beta"

definition uleft :: "vec \<Rightarrow> real \<Rightarrow> obs \<Rightarrow> real" where
  "uleft beta sigma ob = sigma * ((1 - lli beta ob) * self_x ob + lli beta ob * other_x ob)"

definition uright :: "vec \<Rightarrow> real \<Rightarrow> obs \<Rightarrow> real" where
  "uright beta sigma ob = sigma * ((1 - rli beta ob) * self_y ob + rli beta ob * other_y ob)"

definition probs :: "vec \<Rightarrow> real \<Rightarrow> obs \<Rightarrow> real" where
  "probs beta sigma ob =
     (exp (uleft beta sigma ob) / (exp (uleft beta sigma ob) + exp (uright beta sigma ob)))
        powi (choice_x ob)
     * (exp (uright beta sigma ob) / (exp (uleft beta sigma ob) + exp (uright beta sigma ob)))
        powi (1 - choice_x ob)"

definition shape_ok :: "vec \<Rightarrow> obs \<Rightarrow> bool" where
  "shape_ok beta ob =
     (length (indicators_x ob) = length beta \<and> length (indicators_y ob) = length beta)"

definition loglike_dummy :: "vec \<Rightarrow> obs list \<Rightarrow> fault + real" where
  "loglike_dummy v batch =
     (if v = [] then Inl IndexError
      else if \<not> list_all (shape_ok (butlast v)) batch then Inl ValueError
      else bindF (collect (map (\<lambda>ob. np_log (probs (butlast v) (exp (last v)) ob)) batch))
             (\<lambda>logs. Inr (- sum_list logs)))"

text \<open>
  The same function on \<open>float64\<close> values. The columns are pandas \<open>Series\<close>, so \<open>probs\<close>
  is one: \<open>np.log\<close> works entry by entry (\<open>-inf\<close> at 0, \<open>nan\<close> at a negative number
  and at \<open>nan\<close>) and \<open>np.sum\<close> is the sum of the \<open>Series\<close>, which skips \<open>nan\<close> and
  adds the rest (\<open>inf\<close> and \<open>-inf\<close> together give \<open>nan\<close>). What float arithmetic makes
  of \<open>probs\<close> in one row (\<open>np.exp\<close> underflows to 0 and overflows to \<open>inf\<close>, a
  quotient may underflow to 0, \<open>inf/inf\<close> and \<open>0/0\<close> are \<open>nan\<close>) is an input,
  \<open>fprobs v ob\<close>. With the exact value \<open>Finite (probs ...)\<close> for it the function is
  \<open>loglike_dummy\<close>. Nothing is clamped between \<open>probs\<close> and the logarithm.
\<close>

datatype f64 = Finite real | PlusInf | MinusInf | NaN

fun fin_val :: "f64 \<Rightarrow> real" where
  "fin_val (Finite a) = a"
| "fin_val PlusInf = 0"
| "fin_val MinusInf = 0"
| "fin_val NaN = 0"

fun np_log_f64 :: "f64 \<Rightarrow> f64" where
  "np_log_f64 (Finite a) = (if 0 < a then Finite (ln a) else if a = 0 then MinusInf else NaN)"
| "np_log_f64 PlusInf = PlusInf"
| "np_log_f64 MinusInf = NaN"
| "np_log_f64 NaN = NaN"

definition series_sum :: "f64 list \<Rightarrow> f64" where
  "series_sum xs =
     (let kept = filter (\<lambda>x. x \<noteq> NaN) xs
      in if PlusInf \<in> set kept \<and> MinusInf \<in> set kept then NaN
         else if PlusInf \<in> set kept then PlusInf
         else if MinusInf \<in> set kept then MinusInf
         else Finite (sum_list (map fin_val kept)))"

fun f64_neg :: "f64 \<Rightarrow> f64" where
  "f64_neg (Finite a) = Finite (- a)"
| "f64_neg PlusInf = MinusInf"
| "f64_neg MinusInf = PlusInf"
| "f64_neg NaN = NaN"

definition loglike_dummy_f64 :: "(vec \<Rightarrow> obs \<Rightarrow> f64) \<Rightarrow> vec \<Rightarrow> obs list \<Rightarrow> fault + f64" where
  "loglike_dummy_f64 fprobs v batch =
     (if v = [] then Inl IndexError
      else if \<not> list_all (shape_ok (butlast v)) batch then Inl ValueError
      else Inr (f64_neg (series_sum (map (\<lambda>ob. np_log_f64 (fprobs v ob)) batch))))"

text \<open>
  \<open>congradloglike\<close>: the analytic gradient of each observation (one row of \<open>gradi\<close>),
  then the sum over clusters of the outer products of the summed rows.
  \<^verbatim>\<open>
  def congradloglike(v,y,self_x,other_x,self_y,other_y,indicators_x,indicators_y,clusters):
      (every argument but v is turned into an np.array)
      beta = v[0:-1]
      sigma = np.exp(v[-1])
      lli = (indicators_x @ beta)
      rli = (indicators_y @ beta)
      utl  = sigma*( (1-lli) * self_x + lli * other_x)
      utr = sigma*( (1-rli) * self_y + rli * other_y)
      probs  = (np.exp(utl)/(np.exp(utl)+np.exp(utr)))**y
               * (np.exp(utr)/(np.exp(utl)+np.exp(utr)))**(1-y)
      probsm = (ones.T * probs).T
      u = (ones.T * (np.exp(utl))).T
      w = (ones.T * (np.exp(utl) + np.exp(utr))).T
      up = sigma * indicators_x * ((ones.T * (other_x - self_x))).T * u
      wp = up + sigma * indicators_y * (ones.T * ((other_y-self_y) * np.exp(utr))).T
      bgradi = ((-1)**(1-y)* ((up*w - u*wp)/w**2).T).T /probsm
      up2 = utl * u[:,0]
      wp2 = up2 + utr * np.exp(utr)
      ggradi = (-1)**(1-y) * (((up2*w[:,0]-u[:,0]*wp2) /w[:,0]**2)/probs)
      gradi = np.column_stack((bgradi,ggradi))
      cl = np.unique(clusters)
      j = len(cl)
      k = len(gradi[0])
      sandwich = np.zeros((k,k))
      for i in range(0,j):
          sel = [m for m in range(len(clusters)) if clusters[m]==cl[i]]
          gradsel = np.sum(gradi[sel,:],axis=0)
          sandwich += np.outer(gradsel,gradsel)
      return sandwich
  \<close>
  \<open>ones\<close> abbreviates \<open>np.ones((len(indicators_x), len(indicators_x[0])))\<close>, which raises
  on an empty batch. \<open>(-1)**(1-y)\<close> is an integer power and raises on a negative exponent.
  \<open>u[:,0]\<close> raises when there is no indicator column. A batch without rows carries no
  row length here, so the shape test of \<open>@\<close> passes on it and the empty batch is met by
  the \<open>IndexError\<close> of \<open>indicators_x[0]\<close>.
\<close>

definition gradi_row :: "vec \<Rightarrow> real \<Rightarrow> obs \<Rightarrow> vec" where
  "gradi_row beta sigma ob =
     (let utl = uleft beta sigma ob;
          utr = uright beta sigma ob;
          u = exp utl;
          w = exp utl + exp utr;
          sgn = (- 1) ^ nat (1 - choice_x ob);
          up = map (\<lambda>ix. sigma * ix * (other_x ob - self_x ob) * u) (indicators_x ob);
          wp = map2 (\<lambda>a iy. a + sigma * iy * ((other_y ob - self_y ob) * exp utr))
                 up (indicators_y ob);
          bgradi = map2 (\<lambda>a b. sgn * ((a * w - u * b) / w\<^sup>2) / probs beta sigma ob) up wp;
          up2 = utl * u;
          wp2 = up2 + utr * exp utr;
          ggradi = sgn * (((up2 * w - u * wp2) / w\<^sup>2) / probs beta sigma ob)
      in bgradi @ [ggradi])"

definition col_sums :: "nat \<Rightarrow> vec list \<Rightarrow> vec" where
  "col_sums k rows = foldl vadd (replicate k 0) rows"

definition cluster_step :: "nat \<Rightarrow> int list \<Rightarrow> vec list \<Rightarrow> int \<Rightarrow> mat \<Rightarrow> mat" where
  "cluster_step k clusters gradi c sandwich =
     (let sel = filter (\<lambda>m. clusters ! m = c) [0..<length clusters];
          gradsel = col_sums k (map (\<lambda>m. gradi ! m) sel)
      in mat_add sandwich (outer gradsel gradsel))"

definition congradloglike :: "vec \<Rightarrow> obs list \<Rightarrow> fault + mat" where
  "congradloglike v batch =
     (if v = [] then Inl IndexError
      else if \<not> list_all (shape_ok (butlast v)) batch then Inl ValueError
      else if batch = [] then Inl IndexError
      else if \<not> list_all (\<lambda>ob. choice_x ob \<le> 1) batch then Inl ValueError
      else if butlast v = [] then Inl IndexError
      else
        (let gradi = map (gradi_row (butlast v) (exp (last v))) batch;
             clusters = map sid batch;
             cl = np_unique clusters;
             k = length (hd gradi)
         in Inr (fold (cluster_step k clusters gradi) cl (zeros k))))"

text \<open>The specification's words for the discrete-choice likelihood.\<close>

definition spec_utility :: "vec \<Rightarrow> vec \<Rightarrow> real \<Rightarrow> real \<Rightarrow> real" where
  "spec_utility theta ind own other = (1 - dot ind theta) * own + dot ind theta * other"

definition spec_softmax2 :: "real \<Rightarrow> real \<Rightarrow> real" where
  "spec_softmax2 a b = exp a / (exp a + exp b)"

definition logistic :: "real \<Rightarrow> real" where
  "logistic t = 1 / (1 + exp (- t))"

definition bernoulli_mass :: "real \<Rightarrow> int \<Rightarrow> real" where
  "bernoulli_mass p y = (if y = 1 then p else 1 - p)"

definition spec_choice_likelihood :: "vec \<Rightarrow> real \<Rightarrow> obs \<Rightarrow> real" where
  "spec_choice_likelihood theta sigma ob =
     bernoulli_mass
       (spec_softmax2
          (sigma * spec_utility theta (indicators_x ob) (self_x ob) (other_x ob))
          (sigma * spec_utility theta (indicators_y ob) (self_y ob) (other_y ob)))
       (choice_x ob)"


section \<open>The sandwich variance and the standard errors\<close>

text \<open>
  \<^verbatim>\<open>
  varcov_s1 = adj * (inv_hess @ grad_contribution @ inv_hess)
  se_s1 = np.sqrt(np.diag(varcov_s1))
  \<close>
  and the same two lines in the effort notebook (\<open>varcov_estimates\<close>, \<open>se_cluster\<close>). The
  inverse Hessian comes from library code (\<open>numdifftools\<close> or \<open>autograd\<close>, then
  \<open>np.linalg.inv\<close>) and is an input here.
\<close>

definition sandwich_varcov :: "real \<Rightarrow> mat \<Rightarrow> mat \<Rightarrow> fault + mat" where
  "sandwich_varcov adj inv_hess grad_contribution =
     bindF (matmul inv_hess grad_contribution) (\<lambda>hg.
     bindF (matmul hg inv_hess) (\<lambda>hgh. Inr (mat_scale adj hgh)))"

definition se_of_varcov :: "mat \<Rightarrow> fault + vec" where
  "se_of_varcov varcov = collect (map np_sqrt (np_diag varcov))"

definition varcov_s1 :: "mat \<Rightarrow> vec \<Rightarrow> obs list \<Rightarrow> fault + mat" where
  "varcov_s1 inv_hess res_s1 dt1 =
     bindF (adj_s1 (int (length dt1)) (int (length res_s1))
              (int (length (np_unique (map sid dt1))))) (\<lambda>adj.
     bindF (congradloglike res_s1 dt1) (\<lambda>grad_contribution.
     sandwich_varcov adj inv_hess grad_contribution))"

text \<open>The specification's words: entry \<open>(i, j)\<close> of \<open>Adj \<cdot> H\<^sup>-\<^sup>1 \<cdot> G \<cdot> H\<^sup>-\<^sup>1\<close>.\<close>

definition spec_sandwich_entry :: "real \<Rightarrow> mat \<Rightarrow> mat \<Rightarrow> nat \<Rightarrow> nat \<Rightarrow> nat \<Rightarrow> real" where
  "spec_sandwich_entry a Hinv G K i j =
     a * (\<Sum>l<K. \<Sum>m<K. Hinv ! i ! m * G ! m ! l * Hinv ! l ! j)"


section \<open>Effort model (Augenblick and Rabin)\<close>

text \<open>
  One row of the data frame \<open>dt\<close>. The two dummies are made from the effort column:
  \<^verbatim>\<open>
  dt['ind_effort10']  = (dt['effort']==10).astype(int)
  dt['ind_effort110'] = (dt['effort']==110).astype(int)
  \<close>
\<close>

record eobs =
  wid :: int
  netdistance :: real
  wage :: real
  today :: real
  prediction :: real
  pb :: real
  effort :: real
  ind_effort10 :: real
  ind_effort110 :: real

definition add_dummies :: "eobs \<Rightarrow> eobs" where
  "add_dummies ob =
     ob\<lparr>ind_effort10 := (if effort ob = 10 then 1 else 0),
        ind_effort110 := (if effort ob = 110 then 1 else 0)\<rparr>"

text \<open>
  The normal distribution is library code (\<open>scipy.stats.norm\<close>, \<open>autograd.scipy.stats.norm\<close>)
  and is an input: \<open>pdf lib a loc scale\<close> is \<open>norm.pdf(a, loc, scale)\<close> for a positive
  scale (for any other scale the library returns \<open>nan\<close>), \<open>cdf lib t\<close> is \<open>norm.cdf(t)\<close>,
  which is also \<open>norm.cdf(t,0,1)\<close>. \<open>gauss_pdf\<close> is the density the library documents.
\<close>

record norm_lib =
  pdf :: "real \<Rightarrow> real \<Rightarrow> real \<Rightarrow> real"
  cdf :: "real \<Rightarrow> real"

definition gauss_pdf :: "real \<Rightarrow> real \<Rightarrow> real \<Rightarrow> real" where
  "gauss_pdf a loc scale = exp (- ((a - loc) / scale)\<^sup>2 / 2) / (scale * sqrt (2 * pi))"

text \<open>
  \<^verbatim>\<open>
  def negloglike(params, *args):
      beta, betahat, delta, gamma, phi, alpha, sigma = params
      netdistance, wage, today, prediction, pb, effort, ind_effort10, ind_effort110 = args
      ...
      predchoice=((phi*(delta**netdistance)*(beta**today)*(betahat**prediction)*wage)
                  **(1/(gamma-1)))-pb*alpha
      prob = (1-ind_effort10-ind_effort110)*norm.pdf(effort, predchoice, sigma)
             +ind_effort10*(1 - norm.cdf((predchoice-effort)/sigma))
             +ind_effort110*norm.cdf((predchoice-effort)/sigma)
      (the clamping step)
      negll = - np.sum(np.log(prob))
      return negll
  \<close>
  The parameters are entries of a numpy array, so \<open>1/(gamma-1)\<close> is a numpy division.
\<close>

definition predchoice :: "vec \<Rightarrow> eobs \<Rightarrow> fault + real" where
  "predchoice params ob =
     (let beta = params ! 0; betahat = params ! 1; delta = params ! 2;
          gamma = params ! 3; phi = params ! 4; alpha = params ! 5
      in bindF (np_power delta (netdistance ob)) (\<lambda>d.
         bindF (np_power beta (today ob)) (\<lambda>b.
         bindF (np_power betahat (prediction ob)) (\<lambda>bh.
         bindF (np_div 1 (gamma - 1)) (\<lambda>ex.
         bindF (np_power (phi * d * b * bh * wage ob) ex) (\<lambda>pw.
         Inr (pw - pb ob * alpha)))))))"

definition prob_obs :: "norm_lib \<Rightarrow> vec \<Rightarrow> eobs \<Rightarrow> fault + real" where
  "prob_obs lib params ob =
     (let sigma = params ! 6
      in bindF (predchoice params ob) (\<lambda>pc.
         if sigma \<le> 0 then Inl NotFinite
         else Inr ((1 - ind_effort10 ob - ind_effort110 ob) * pdf lib (effort ob) pc sigma
                   + ind_effort10 ob * (1 - cdf lib ((pc - effort ob) / sigma))
                   + ind_effort110 ob * cdf lib ((pc - effort ob) / sigma))))"

definition negloglike :: "norm_lib \<Rightarrow> vec \<Rightarrow> eobs list \<Rightarrow> fault + real" where
  "negloglike lib params dt =
     (if length params \<noteq> 7 then Inl ValueError
      else bindF (collect (map (prob_obs lib params) dt)) (\<lambda>prob.
           bindF (collect (map np_log (clamp_prob prob))) (\<lambda>logs.
           Inr (- sum_list logs))))"

text \<open>The specification's words for the effort model.\<close>

definition spec_optimal_effort :: "vec \<Rightarrow> eobs \<Rightarrow> real" where
  "spec_optimal_effort params ob =
     (params ! 4 * (params ! 2) powr netdistance ob * (params ! 0) powr today ob
        * (params ! 1) powr prediction ob * wage ob) powr (1 / (params ! 3 - 1))
     - pb ob * params ! 5"

definition spec_tobit_likelihood :: "norm_lib \<Rightarrow> real \<Rightarrow> real \<Rightarrow> eobs \<Rightarrow> real" where
  "spec_tobit_likelihood lib sigma estar ob =
     (if effort ob = 10 then 1 - cdf lib ((estar - 10) / sigma)
      else if effort ob = 110 then cdf lib ((estar - 110) / sigma)
      else pdf lib (effort ob) estar sigma)"

text \<open>
  \<open>gradcontr\<close>: the gradient of each observation comes from automatic differentiation
  (\<open>gradfun = grad(negloglike)\<close>) and is an input.
  \<^verbatim>\<open>
  def gradcontr(dt, parameters):
      G = np.zeros((len(parameters), len(parameters)))
      vsingle_grad = []
      for j in range(0, len(dt.wid)):
          ...
          single_grad = np.array(gradfun(parameters, *args_ind))
          vsingle_grad.append(single_grad)
      dg = pd.DataFrame({'wid': dt.wid, 'gradient': vsingle_grad})
      for wid in np.unique(dt.wid):
          ind_grad = [sum(i) for i in zip(*dg.loc[dg['wid'] == wid].gradient)]
          G += np.outer(ind_grad,ind_grad)
      return G
  \<close>
  \<open>zip\<close> stops at the shortest gradient. The in-place sum broadcasts a one-by-one outer
  product over \<open>G\<close> and raises on every other mismatch of shapes.
\<close>

definition zip_sums :: "vec list \<Rightarrow> vec" where
  "zip_sums rows =
     (if rows = [] then []
      else map (\<lambda>i. sum_list (map (\<lambda>row. row ! i) rows)) [0..<Min (set (map length rows))])"

definition iadd_outer :: "mat \<Rightarrow> vec \<Rightarrow> fault + mat" where
  "iadd_outer G g =
     (if length g = length G then Inr (mat_add G (outer g g))
      else if length g = 1 then Inr (map (map (\<lambda>a. a + hd g * hd g)) G)
      else Inl ValueError)"

definition gradcontr :: "(vec \<Rightarrow> eobs \<Rightarrow> vec) \<Rightarrow> eobs list \<Rightarrow> vec \<Rightarrow> fault + mat" where
  "gradcontr gradfun dt parameters =
     (let vsingle_grad = map (gradfun parameters) dt;
          dg = zip (map wid dt) vsingle_grad
      in fold (\<lambda>w acc. bindF acc (\<lambda>G.
                 iadd_outer G (zip_sums (map snd (filter (\<lambda>row. fst row = w) dg)))))
           (np_unique (map wid dt))
           (Inr (zeros (length parameters))))"

definition varcov_estimates ::
  "(vec \<Rightarrow> eobs \<Rightarrow> vec) \<Rightarrow> mat \<Rightarrow> vec \<Rightarrow> eobs list \<Rightarrow> fault + mat" where
  "varcov_estimates gradfun hess_inv res dt =
     bindF (gradcontr gradfun dt res) (\<lambda>grad_contribution.
     bindF (adj_ar (int (length dt)) (int (length res))
              (int (length (np_unique (map wid dt))))) (\<lambda>adj.
     sandwich_varcov adj hess_inv grad_contribution))"


section \<open>Hypothesis tests\<close>

text \<open>
  An operation on two one-dimensional arrays works entry by entry; an array of length
  one is broadcast, any other difference of lengths raises.
  \<^verbatim>\<open>
  zvalues_s1 = np.array(results_s1)/np.array(se_s1)
  pvalues_s1 = 2*(1-norm.cdf(np.abs(zvalues_s1),0,1))
  var_s1 = np.array(se_s1)**2
  var_s2 = np.array(se_s2)**2
  zvalues_s1s2 = (np.abs(np.array(results_s1)-np.array(results_s2))) / np.sqrt(var_s1+var_s2)
  pvalues_s1s2 = 2*(1-norm.cdf(zvalues_s1s2,0,1))
  zvalues_1 = (np.array(res[0:3])-1)/np.array(se_cluster[0:3])
  pvalues_1 = 2*(1-norm.cdf(np.abs(zvalues_1),0,1))
  zvalue_a = (np.array(res[5]))/np.array(se_cluster[5])
  pvalue_a = 2*(1-norm.cdf(np.abs(zvalue_a),0,1))
  \<close>
\<close>

definition np_elementwise :: "(real \<Rightarrow> real \<Rightarrow> fault + real) \<Rightarrow> vec \<Rightarrow> vec \<Rightarrow> fault + vec" where
  "np_elementwise f a b =
     (if length a = length b then collect (map2 f a b)
      else if length b = 1 then collect (map (\<lambda>p. f p (hd b)) a)
      else if length a = 1 then collect (map (\<lambda>q. f (hd a) q) b)
      else Inl ValueError)"

definition zvalues_s1 :: "vec \<Rightarrow> vec \<Rightarrow> fault + vec" where
  "zvalues_s1 results se = np_elementwise np_div results se"

definition pvalues :: "norm_lib \<Rightarrow> vec \<Rightarrow> vec" where
  "pvalues lib z = map (\<lambda>t. 2 * (1 - cdf lib \<bar>t\<bar>)) z"

definition zvalues_s1s2 :: "vec \<Rightarrow> vec \<Rightarrow> vec \<Rightarrow> vec \<Rightarrow> fault + vec" where
  "zvalues_s1s2 results1 results2 se1 se2 =
     bindF (np_elementwise (\<lambda>p q. Inr \<bar>p - q\<bar>) results1 results2) (\<lambda>num.
     bindF (np_elementwise (\<lambda>p q. Inr (sqrt (p\<^sup>2 + q\<^sup>2))) se1 se2) (\<lambda>den.
     np_elementwise np_div num den))"

definition pvalues_s1s2 :: "norm_lib \<Rightarrow> vec \<Rightarrow> vec" where
  "pvalues_s1s2 lib z = map (\<lambda>t. 2 * (1 - cdf lib t)) z"

definition zvalues_1 :: "vec \<Rightarrow> vec \<Rightarrow> fault + vec" where
  "zvalues_1 res se_cluster =
     np_elementwise np_div (map (\<lambda>p. p - 1) (take 3 res)) (take 3 se_cluster)"

definition zvalue_a :: "vec \<Rightarrow> vec \<Rightarrow> fault + real" where
  "zvalue_a res se_cluster =
     (if length res \<le> 5 \<or> length se_cluster \<le> 5 then Inl IndexError
      else np_div (res ! 5) (se_cluster ! 5))"

definition pvalue_a :: "norm_lib \<Rightarrow> real \<Rightarrow> real" where
  "pvalue_a lib z = 2 * (1 - cdf lib \<bar>z\<bar>)"

text \<open>The specification's words for the tests.\<close>

definition spec_z :: "real \<Rightarrow> real \<Rightarrow> real \<Rightarrow> real" where
  "spec_z estimate reference se = (estimate - reference) / se"

definition spec_pvalue :: "norm_lib \<Rightarrow> real \<Rightarrow> real" where
  "spec_pvalue lib z = 2 * (1 - cdf lib \<bar>z\<bar>)"

definition spec_compare :: "real \<Rightarrow> real \<Rightarrow> real \<Rightarrow> real \<Rightarrow> real" where
  "spec_compare e1 e2 var1 var2 = \<bar>e1 - e2\<bar> / sqrt (var1 + var2)"


section \<open>The optimizer's result\<close>

text \<open>
  \<open>opt.minimize\<close> is library code; it returns an object with the final point \<open>x\<close>, the
  value \<open>fun\<close> there, the convergence flag \<open>success\<close>, the termination \<open>status\<close> with its
  \<open>message\<close>, and the iteration count \<open>nit\<close>. What the notebooks read of it:
  \<^verbatim>\<open>
  res_s1 = sol.x
  results_s1=[*res_s1[0:-1], np.exp(res_s1[-1])]
  print("Log likelihood:","{:,.2f}".format(-sol.fun))
  \<close>
  in the discrete-choice notebook, and
  \<^verbatim>\<open>
  sol = opt.minimize(negloglike, par_init, args=(mle_args), method='Nelder-Mead',
                     options={'maxiter': 1500})
  res = sol.x
  print("Log Likelihood:","{:,.0f}".format(-sol.fun))
  \<close>
  in the effort notebook.
\<close>

record optimize_result =
  sol_x :: vec
  sol_fun :: real
  sol_success :: bool
  sol_status :: int
  sol_message :: string
  sol_nit :: nat

record estimates =
  est_res :: vec
  est_results :: vec
  est_loglik :: real

definition estimates_s1 :: "optimize_result \<Rightarrow> fault + estimates" where
  "estimates_s1 sol =
     (if sol_x sol = [] then Inl IndexError
      else Inr \<lparr>est_res = sol_x sol,
                est_results = butlast (sol_x sol) @ [exp (last (sol_x sol))],
                est_loglik = - sol_fun sol\<rparr>)"

definition estimates_ar :: "optimize_result \<Rightarrow> estimates" where
  "estimates_ar sol =
     \<lparr>est_res = sol_x sol, est_results = sol_x sol, est_loglik = - sol_fun sol\<rparr>"


section \<open>Properties\<close>

subsection \<open>The clamping step\<close>

lemma fold_update_length:
  "length (fold (\<lambda>i p. p[i := c]) js p) = length (p :: 'a list)"
  by (induction js arbitrary: p) simp_all

lemma fold_update_nth:
  "j < length p \<Longrightarrow>
   fold (\<lambda>i p. p[i := c]) js p ! j = (if j \<in> set js then c else (p :: 'a list) ! j)"
proof (induction js arbitrary: p)
  case Nil
  then show ?case by simp
next
  case (Cons i js)
  have len: "j < length (p[i := c])" using Cons.prems by simp
  show ?case
  proof (cases "j = i")
    case True
    have "fold (\<lambda>i p. p[i := c]) js (p[i := c]) ! j
          = (if j \<in> set js then c else p[i := c] ! j)"
      using Cons.IH [OF len] .
    then show ?thesis using True Cons.prems by simp
  next
    case False
    have "fold (\<lambda>i p. p[i := c]) js (p[i := c]) ! j
          = (if j \<in> set js then c else p[i := c] ! j)"
      using Cons.IH [OF len] .
    then show ?thesis using False by simp
  qed
qed

lemma clamp_prob_length: "length (clamp_prob prob) = length prob"
  by (simp add: clamp_prob_def fold_update_length)

lemma clamp_prob_nth:
  assumes "i < length prob"
  shows "clamp_prob prob ! i =
           (if prob ! i = 0 then 1 / 10000
            else if prob ! i = 1 then 1 - 1 / 10000
            else prob ! i)"
proof -
  let ?q = "fold (\<lambda>i p. p[i := 1 / 10000]) (index_p0 prob) prob"
  have lq: "i < length ?q" using assms by (simp add: fold_update_length)
  have q: "?q ! i = (if prob ! i = 0 then 1 / 10000 else prob ! i)"
    using assms by (simp add: fold_update_nth index_p0_def)
  have "clamp_prob prob ! i = (if i \<in> set (index_p1 prob) then 1 - 1 / 10000 else ?q ! i)"
    unfolding clamp_prob_def using fold_update_nth [OF lq] by simp
  also have "\<dots> = (if prob ! i = 1 then 1 - 1 / 10000 else ?q ! i)"
    using assms by (simp add: index_p1_def)
  finally show ?thesis using q by simp
qed


text \<open>
  C10. The clamping step of \<open>negloglike\<close> keeps the length of the probability vector,
  replaces an entry that is exactly 0 by \<open>1e-4\<close> and an entry that is exactly 1 by
  \<open>1 - 1e-4\<close>, and leaves every other entry as it is; on a vector with no entry equal
  to 0 or 1 it is the identity.
\<close>

theorem clamp_prob_frame:
  "length (clamp_prob prob) = length prob \<and>
   (\<forall>i<length prob.
      clamp_prob prob ! i =
        (if prob ! i = 0 then 1 / 10000
         else if prob ! i = 1 then 1 - 1 / 10000
         else prob ! i)) \<and>
   ((\<forall>i<length prob. prob ! i \<noteq> 0 \<and> prob ! i \<noteq> 1) \<longrightarrow> clamp_prob prob = prob)"
proof (intro conjI allI impI)
  show "length (clamp_prob prob) = length prob" by (rule clamp_prob_length)
next
  fix i assume "i < length prob"
  then show "clamp_prob prob ! i =
        (if prob ! i = 0 then 1 / 10000
         else if prob ! i = 1 then 1 - 1 / 10000
         else prob ! i)"
    by (rule clamp_prob_nth)
next
  assume h: "\<forall>i<length prob. prob ! i \<noteq> 0 \<and> prob ! i \<noteq> 1"
  show "clamp_prob prob = prob"
    by (rule nth_equalityI) (use h in \<open>simp_all add: clamp_prob_length clamp_prob_nth\<close>)
qed

theorem clamp_prob_frame_witness:
  "clamp_prob [0, 3 / 10, 1, 1 / 2] = [1 / 10000, 3 / 10, 9999 / 10000, 1 / 2] \<and>
   clamp_prob [3 / 10, 1 / 2] = [3 / 10, 1 / 2]"
proof -
  have a: "\<forall>i<length [3 / 10, 1 / 2 :: real].
             [3 / 10, 1 / 2 :: real] ! i \<noteq> 0 \<and> [3 / 10, 1 / 2 :: real] ! i \<noteq> 1"
    by (simp add: less_Suc_eq)
  have id: "clamp_prob [3 / 10, 1 / 2] = [3 / 10, 1 / 2]"
    using clamp_prob_frame [of "[3 / 10, 1 / 2]"] a by blast
  let ?p = "[0, 3 / 10, 1, 1 / 2 :: real]"
  have len: "length (clamp_prob ?p) = 4"
    using clamp_prob_frame [of ?p] by simp
  have nth: "\<And>i. i < 4 \<Longrightarrow> clamp_prob ?p ! i =
        (if ?p ! i = 0 then 1 / 10000 else if ?p ! i = 1 then 1 - 1 / 10000 else ?p ! i)"
    using clamp_prob_frame [of ?p] by simp
  have "clamp_prob ?p = [1 / 10000, 3 / 10, 9999 / 10000, 1 / 2]"
  proof (rule nth_equalityI)
    show "length (clamp_prob ?p) = length [1 / 10000, 3 / 10, 9999 / 10000, 1 / 2 :: real]"
      using len by simp
  next
    fix i assume "i < length (clamp_prob ?p)"
    then have "i < 4" using len by simp
    then consider "i = 0" | "i = 1" | "i = 2" | "i = 3" by linarith
    then show "clamp_prob ?p ! i = [1 / 10000, 3 / 10, 9999 / 10000, 1 / 2] ! i"
    proof cases
      case 1 then show ?thesis using nth [of 0] by simp
    next
      case 2 then show ?thesis using nth [of 1] by simp
    next
      case 3 then show ?thesis using nth [of 2] by simp
    next
      case 4 then show ?thesis using nth [of 3] by simp
    qed
  qed
  then show ?thesis using id by simp
qed


subsection \<open>The delta method\<close>

text \<open>
  C6. The sensitivity parameter is optimised on the log scale. For every estimate
  vector and every vector of standard errors whose last entry is non-negative, the
  reported last standard error \<open>sqrt (exp v ^ 2 * se ^ 2)\<close> equals \<open>exp v * se\<close>, the
  estimate of the sensitivity times the untransformed standard error; the other entries
  are passed on unchanged.
\<close>

theorem se_delta_is_delta_method:
  assumes "res \<noteq> []" and "se \<noteq> []" and "0 \<le> last se"
  shows "se_delta res se = Inr (butlast se @ [exp (last res) * last se])"
proof -
  have "(exp (last res))\<^sup>2 * (last se)\<^sup>2 = (exp (last res) * last se)\<^sup>2"
    by (simp add: power_mult_distrib)
  moreover have "0 \<le> exp (last res) * last se"
    using assms(3) by simp
  ultimately have "sqrt ((exp (last res))\<^sup>2 * (last se)\<^sup>2) = exp (last res) * last se"
    by (simp only: real_sqrt_abs abs_of_nonneg)
  then show ?thesis using assms by (simp add: se_delta_def)
qed

theorem se_delta_is_delta_method_witness:
  "[1, 0 :: real] \<noteq> [] \<and> [3, 2 :: real] \<noteq> [] \<and> 0 \<le> last [3, 2 :: real] \<and>
   se_delta [1, 0] [3, 2] = Inr [3, 2]"
  using se_delta_is_delta_method [of "[1, 0]" "[3, 2]"] by simp


subsection \<open>The degrees-of-freedom adjustment\<close>

lemma adj_s1_defined:
  "N \<noteq> K \<Longrightarrow> J \<noteq> 1 \<Longrightarrow> adj_s1 N K J = Inr (spec_adj N K J)"
  by (simp add: adj_s1_def py_truediv_def spec_adj_def)

lemma adj_ar_defined:
  "N \<noteq> K \<Longrightarrow> J \<noteq> 1 \<Longrightarrow> adj_ar N K J = Inr (spec_adj N K J)"
  by (simp add: adj_ar_def py_truediv_def spec_adj_def)

lemma adj_single_cluster:
  "adj_s1 N K 1 = Inl ZeroDivisionError \<and> adj_ar N K 1 = Inl ZeroDivisionError"
  by (simp add: adj_s1_def adj_ar_def py_truediv_def split: sum.splits)

lemma ratio_tends_to_one: "(\<lambda>n. (real n - 1) / (real n - k)) \<longlonglongrightarrow> 1"
proof -
  have inf: "LIM n sequentially. real n - k :> at_top"
    using filterlim_tendsto_add_at_top [OF tendsto_const [of "-k"] filterlim_real_sequentially]
    by (simp add: add.commute)
  have "(\<lambda>n. (k - 1) / (real n - k)) \<longlonglongrightarrow> 0"
    by (rule tendsto_divide_0 [OF tendsto_const]) (rule filterlim_at_top_imp_at_infinity [OF inf])
  then have "(\<lambda>n. 1 + (k - 1) / (real n - k)) \<longlonglongrightarrow> 1 + 0"
    by (intro tendsto_add tendsto_const)
  moreover have "\<forall>\<^sub>F n in sequentially. 1 + (k - 1) / (real n - k) = (real n - 1) / (real n - k)"
  proof -
    have "\<forall>\<^sub>F n in sequentially. real n > k"
      using filterlim_real_sequentially by (simp add: filterlim_at_top_dense)
    then show ?thesis
      by (rule eventually_mono) (simp add: field_simps)
  qed
  ultimately show ?thesis
    using Lim_transform_eventually by fastforce
qed

lemma spec_adj_limit:
  "(\<lambda>n. spec_adj (int n) K J) \<longlonglongrightarrow> of_int J / (of_int J - 1)"
proof -
  have "(\<lambda>n. (real n - 1) / (real n - of_int K) * (of_int J / (of_int J - 1)))
          \<longlonglongrightarrow> 1 * (of_int J / (of_int J - 1))"
    by (intro tendsto_mult tendsto_const ratio_tends_to_one)
  then show ?thesis by (simp add: spec_adj_def)
qed

text \<open>
  C7, as the claim states it, fails: with five parameters and two clusters the
  adjustment does not come within 1/2 of 1 however many observations there are.
\<close>

theorem adj_limit_counterexample:
  "\<not> (\<exists>n0. \<forall>n\<ge>n0. \<exists>a. adj_s1 (int n) 5 2 = Inr a \<and> \<bar>a - 1\<bar> < 1 / 2)"
proof
  assume "\<exists>n0. \<forall>n\<ge>n0. \<exists>a. adj_s1 (int n) 5 2 = Inr a \<and> \<bar>a - 1\<bar> < 1 / 2"
  then obtain n0 where h: "\<forall>n\<ge>n0. \<exists>a. adj_s1 (int n) 5 2 = Inr a \<and> \<bar>a - 1\<bar> < 1 / 2" ..
  define n where "n = max n0 6"
  have n6: "6 \<le> n" and "n0 \<le> n" by (simp_all add: n_def)
  then obtain a where a: "adj_s1 (int n) 5 2 = Inr a" "\<bar>a - 1\<bar> < 1 / 2" using h by blast
  define r where "r = (real n - 1) / (real n - 5)"
  have "adj_s1 (int n) 5 2 = Inr (r * 2)"
    using n6 by (simp add: adj_s1_def py_truediv_def r_def)
  then have "a = r * 2" using a(1) by simp
  moreover have "r \<ge> 1" using n6 by (simp add: r_def field_simps)
  ultimately show False using a(2) by linarith
qed

text \<open>
  C7, amended. Where the observation count differs from the parameter count and there
  is more than one cluster, both notebooks compute \<open>(N-1)/(N-K) \<cdot> J/(J-1)\<close>. With \<open>K\<close>
  and \<open>J\<close> fixed this tends to \<open>J/(J-1)\<close> as \<open>N\<close> grows, which is not 1. With a single
  cluster the computation raises \<open>ZeroDivisionError\<close> in both notebooks; no test of the
  cluster count precedes the division.
\<close>

theorem adj_limit_and_single_cluster:
  "(N \<noteq> K \<and> J \<noteq> 1 \<longrightarrow>
      adj_s1 N K J = Inr (spec_adj N K J) \<and> adj_ar N K J = Inr (spec_adj N K J)) \<and>
   (J \<noteq> 1 \<longrightarrow>
      (\<lambda>n. spec_adj (int n) K J) \<longlonglongrightarrow> of_int J / (of_int J - 1) \<and>
      of_int J / (of_int J - 1) \<noteq> (1 :: real)) \<and>
   adj_s1 N K 1 = Inl ZeroDivisionError \<and> adj_ar N K 1 = Inl ZeroDivisionError"
  using adj_s1_defined [of N K J] adj_ar_defined [of N K J] spec_adj_limit [of K J]
    adj_single_cluster [of N K]
  by (simp add: field_simps)

theorem adj_limit_and_single_cluster_witness:
  "(18720 :: int) \<noteq> 5 \<and> (160 :: int) \<noteq> 1 \<and>
   adj_s1 18720 5 160 = Inr (18719 / 18715 * (160 / 159)) \<and>
   adj_ar 18720 5 160 = Inr (18719 / 18715 * (160 / 159)) \<and>
   (\<lambda>n. spec_adj (int n) 5 160) \<longlonglongrightarrow> 160 / 159 \<and>
   adj_s1 18720 5 1 = Inl ZeroDivisionError"
  using adj_limit_and_single_cluster [of 18720 5 160]
  by (simp add: spec_adj_def)

subsection \<open>The discrete-choice likelihood\<close>

lemma collect_Inr: "collect (map (\<lambda>a. Inr (f a)) as) = Inr (map f as)"
  by (induction as) simp_all

lemma collect_map_cong_Inr:
  "(\<And>a. a \<in> set as \<Longrightarrow> g a = Inr (f a)) \<Longrightarrow> collect (map g as) = Inr (map f as)"
  by (induction as) simp_all

lemma softmax2_pos: "0 < spec_softmax2 a b"
  by (simp add: spec_softmax2_def add_pos_pos field_simps)

lemma softmax2_lt1: "spec_softmax2 a b < 1"
  by (simp add: spec_softmax2_def add_pos_pos field_simps)

lemma softmax2_logistic: "spec_softmax2 a b = logistic (a - b)"
proof -
  have "exp a / (exp a + exp b) = 1 / (1 + exp b / exp a)"
    by (simp add: field_simps add_pos_pos)
  also have "exp b / exp a = exp (- (a - b))"
    by (simp add: exp_diff exp_minus field_simps)
  finally show ?thesis by (simp add: spec_softmax2_def logistic_def)
qed

lemma softmax2_compl: "exp b / (exp a + exp b) = 1 - spec_softmax2 a b"
proof -
  have "exp a + exp b \<noteq> 0" using exp_gt_zero [of a] exp_gt_zero [of b] by linarith
  then show ?thesis by (simp add: spec_softmax2_def field_simps)
qed

lemma uleft_spec: "uleft beta sigma ob = sigma * spec_utility beta (indicators_x ob) (self_x ob) (other_x ob)"
  by (simp add: uleft_def lli_def spec_utility_def)

lemma uright_spec: "uright beta sigma ob = sigma * spec_utility beta (indicators_y ob) (self_y ob) (other_y ob)"
  by (simp add: uright_def rli_def spec_utility_def)

lemma probs_spec:
  assumes "choice_x ob = 0 \<or> choice_x ob = 1"
  shows "probs beta sigma ob = spec_choice_likelihood beta sigma ob"
proof -
  let ?a = "uleft beta sigma ob" and ?b = "uright beta sigma ob"
  have q: "exp ?b / (exp ?a + exp ?b) = 1 - spec_softmax2 ?a ?b" by (rule softmax2_compl)
  have p: "exp ?a / (exp ?a + exp ?b) = spec_softmax2 ?a ?b" by (simp add: spec_softmax2_def)
  show ?thesis
    using assms
    unfolding probs_def spec_choice_likelihood_def bernoulli_mass_def p q
      uleft_spec [symmetric] uright_spec [symmetric]
    by auto
qed

lemma spec_choice_likelihood_range:
  "0 < spec_choice_likelihood beta sigma ob" "spec_choice_likelihood beta sigma ob < 1"
  using softmax2_pos softmax2_lt1
  by (simp_all add: spec_choice_likelihood_def bernoulli_mass_def)

lemma loglike_dummy_spec:
  assumes "v \<noteq> []" and "list_all (shape_ok (butlast v)) batch"
    and "list_all (\<lambda>ob. choice_x ob = 0 \<or> choice_x ob = 1) batch"
  shows "loglike_dummy v batch =
           Inr (- (\<Sum>ob\<leftarrow>batch. ln (spec_choice_likelihood (butlast v) (exp (last v)) ob)))"
proof -
  have "collect (map (\<lambda>ob. np_log (probs (butlast v) (exp (last v)) ob)) batch)
        = Inr (map (\<lambda>ob. ln (spec_choice_likelihood (butlast v) (exp (last v)) ob)) batch)"
  proof (rule collect_map_cong_Inr)
    fix ob assume "ob \<in> set batch"
    then have "choice_x ob = 0 \<or> choice_x ob = 1"
      using assms(3) by (simp add: list_all_iff)
    then show "np_log (probs (butlast v) (exp (last v)) ob)
               = Inr (ln (spec_choice_likelihood (butlast v) (exp (last v)) ob))"
      by (simp add: probs_spec np_log_def spec_choice_likelihood_range)
  qed
  then show ?thesis using assms(1,2) by (simp add: loglike_dummy_def bindF_def)
qed


text \<open>
  C3. For a non-empty parameter vector \<open>v = (theta, log sigma)\<close> and a batch of matching
  shape with choices 0 or 1, the likelihood of each observation in \<open>loglike_dummy\<close> is
  the Bernoulli mass, at the observed choice, of the two-alternative softmax of the
  scaled utilities \<open>sigma U\<^sub>X\<close> and \<open>sigma U\<^sub>Y\<close>, with
  \<open>U = (1 - ind \<cdot> theta) own + (ind \<cdot> theta) other\<close>; the softmax is the logistic
  function of \<open>sigma (U\<^sub>X - U\<^sub>Y)\<close>; and the function returns minus the sum of the
  logarithms of these likelihoods.
\<close>

theorem loglike_dummy_is_bernoulli_softmax:
  assumes "v \<noteq> []" and "list_all (shape_ok (butlast v)) batch"
    and "list_all (\<lambda>ob. choice_x ob = 0 \<or> choice_x ob = 1) batch"
  shows "loglike_dummy v batch
           = Inr (- (\<Sum>ob\<leftarrow>batch. ln (spec_choice_likelihood (butlast v) (exp (last v)) ob))) \<and>
         (\<forall>ob \<in> set batch.
            probs (butlast v) (exp (last v)) ob
              = spec_choice_likelihood (butlast v) (exp (last v)) ob \<and>
            spec_choice_likelihood (butlast v) (exp (last v)) ob
              = bernoulli_mass
                  (logistic (exp (last v)
                     * (spec_utility (butlast v) (indicators_x ob) (self_x ob) (other_x ob)
                        - spec_utility (butlast v) (indicators_y ob) (self_y ob) (other_y ob))))
                  (choice_x ob))"
proof (intro conjI ballI)
  show "loglike_dummy v batch
           = Inr (- (\<Sum>ob\<leftarrow>batch. ln (spec_choice_likelihood (butlast v) (exp (last v)) ob)))"
    by (rule loglike_dummy_spec [OF assms])
next
  fix ob assume "ob \<in> set batch"
  then have "choice_x ob = 0 \<or> choice_x ob = 1" using assms(3) by (simp add: list_all_iff)
  then show "probs (butlast v) (exp (last v)) ob
              = spec_choice_likelihood (butlast v) (exp (last v)) ob"
    by (rule probs_spec)
next
  fix ob
  show "spec_choice_likelihood (butlast v) (exp (last v)) ob
              = bernoulli_mass
                  (logistic (exp (last v)
                     * (spec_utility (butlast v) (indicators_x ob) (self_x ob) (other_x ob)
                        - spec_utility (butlast v) (indicators_y ob) (self_y ob) (other_y ob))))
                  (choice_x ob)"
    by (simp add: spec_choice_likelihood_def softmax2_logistic right_diff_distrib)
qed

theorem loglike_dummy_is_bernoulli_softmax_witness:
  "loglike_dummy [0, 1 / 2, 0, 0, 0]
     [\<lparr>sid = 1, choice_x = 1, self_x = 3, other_x = 1, self_y = 2, other_y = 2,
       indicators_x = [0, 1, 0, 0], indicators_y = [0, 0, 0, 0]\<rparr>]
   = Inr (- ln (logistic 0)) \<and>
   probs [0, 1 / 2, 0, 0] (exp 0)
     \<lparr>sid = 1, choice_x = 1, self_x = 3, other_x = 1, self_y = 2, other_y = 2,
       indicators_x = [0, 1, 0, 0], indicators_y = [0, 0, 0, 0]\<rparr> = 1 / 2"
  using loglike_dummy_is_bernoulli_softmax
    [of "[0, 1 / 2, 0, 0, 0]"
        "[\<lparr>sid = 1, choice_x = 1, self_x = 3, other_x = 1, self_y = 2, other_y = 2,
           indicators_x = [0, 1, 0, 0], indicators_y = [0, 0, 0, 0]\<rparr>]"]
  by (simp add: shape_ok_def bernoulli_mass_def spec_utility_def dot_def logistic_def)


subsection \<open>The effort likelihood\<close>

lemma np_power_pos: "0 < b \<Longrightarrow> np_power b e = Inr (b powr e)"
  by (simp add: np_power_def)

lemma predchoice_spec:
  assumes "0 < params ! 0" "0 < params ! 1" "0 < params ! 2" "params ! 3 \<noteq> 1" "0 < params ! 4"
    and "0 < wage ob"
  shows "predchoice params ob = Inr (spec_optimal_effort params ob)"
proof -
  have base: "0 < params ! 4 * (params ! 2) powr netdistance ob * (params ! 0) powr today ob
                 * (params ! 1) powr prediction ob * wage ob"
    using assms by (simp add: mult_pos_pos)
  show ?thesis
    unfolding predchoice_def spec_optimal_effort_def Let_def
    using assms(1-4) base
    by (simp add: np_power_pos np_div_def bindF_def)
qed

lemma predchoice_add_dummies: "predchoice params (add_dummies ob) = predchoice params ob"
  by (simp add: predchoice_def add_dummies_def)

lemma prob_obs_spec:
  assumes "0 < params ! 0" "0 < params ! 1" "0 < params ! 2" "params ! 3 \<noteq> 1" "0 < params ! 4"
    and "0 < params ! 6" and "0 < wage ob"
  shows "prob_obs lib params (add_dummies ob)
         = Inr (spec_tobit_likelihood lib (params ! 6) (spec_optimal_effort params ob) ob)"
proof -
  have pc: "predchoice params (add_dummies ob) = Inr (spec_optimal_effort params ob)"
    using predchoice_spec [OF assms(1-5) assms(7)] by (simp add: predchoice_add_dummies)
  show ?thesis
    unfolding prob_obs_def Let_def pc bindF_def
    using assms(6) by (simp add: spec_tobit_likelihood_def add_dummies_def)
qed






lemma collect_prob_obs:
  assumes "0 < params ! 0" "0 < params ! 1" "0 < params ! 2" "params ! 3 \<noteq> 1" "0 < params ! 4"
    and "0 < params ! 6" and "list_all (\<lambda>ob. 0 < wage ob) dt"
  shows "collect (map (prob_obs lib params) (map add_dummies dt))
         = Inr (map (\<lambda>ob. spec_tobit_likelihood lib (params ! 6) (spec_optimal_effort params ob) ob) dt)"
proof -
  have "collect (map (\<lambda>ob. prob_obs lib params (add_dummies ob)) dt)
        = Inr (map (\<lambda>ob. spec_tobit_likelihood lib (params ! 6) (spec_optimal_effort params ob) ob) dt)"
  proof (rule collect_map_cong_Inr)
    fix ob assume "ob \<in> set dt"
    then have "0 < wage ob" using assms(7) by (simp add: list_all_iff)
    then show "prob_obs lib params (add_dummies ob)
         = Inr (spec_tobit_likelihood lib (params ! 6) (spec_optimal_effort params ob) ob)"
      by (rule prob_obs_spec [OF assms(1-6)])
  qed
  then show ?thesis by (simp add: comp_def)
qed


text \<open>
  C4. For positive \<open>beta\<close>, \<open>betahat\<close>, \<open>delta\<close>, \<open>phi\<close>, \<open>sigma\<close>, \<open>gamma \<noteq> 1\<close> and
  positive wages, \<open>negloglike\<close> predicts the effort
  \<open>e* = (phi delta^netdistance beta^today betahat^prediction wage)^(1/(gamma-1)) - pb alpha\<close>,
  and, the dummies being made from the effort column, the likelihood of an observation
  is the library's normal density of the effort around \<open>e*\<close> with standard deviation
  \<open>sigma\<close>, except that it is \<open>1 - Phi ((e* - 10) / sigma)\<close> at effort 10 and
  \<open>Phi ((e* - 110) / sigma)\<close> at effort 110. This is the vector \<open>prob\<close> before the
  clamping step.
\<close>

theorem negloglike_is_tobit:
  assumes "0 < params ! 0" and "0 < params ! 1" and "0 < params ! 2" and "params ! 3 \<noteq> 1"
    and "0 < params ! 4" and "0 < params ! 6" and "list_all (\<lambda>ob. 0 < wage ob) dt"
    and "length params = 7"
  shows "negloglike lib params (map add_dummies dt)
           = bindF (collect (map np_log (clamp_prob
                      (map (\<lambda>ob. spec_tobit_likelihood lib (params ! 6)
                                 (spec_optimal_effort params ob) ob) dt))))
               (\<lambda>logs. Inr (- sum_list logs)) \<and>
         collect (map (prob_obs lib params) (map add_dummies dt))
           = Inr (map (\<lambda>ob. spec_tobit_likelihood lib (params ! 6)
                              (spec_optimal_effort params ob) ob) dt) \<and>
         (\<forall>ob \<in> set dt.
            predchoice params (add_dummies ob) = Inr (spec_optimal_effort params ob) \<and>
            prob_obs lib params (add_dummies ob)
              = Inr (spec_tobit_likelihood lib (params ! 6) (spec_optimal_effort params ob) ob))"
proof (intro conjI ballI)
  show c: "collect (map (prob_obs lib params) (map add_dummies dt))
           = Inr (map (\<lambda>ob. spec_tobit_likelihood lib (params ! 6)
                              (spec_optimal_effort params ob) ob) dt)"
    by (rule collect_prob_obs [OF assms(1-7)])
  show "negloglike lib params (map add_dummies dt)
           = bindF (collect (map np_log (clamp_prob
                      (map (\<lambda>ob. spec_tobit_likelihood lib (params ! 6)
                                 (spec_optimal_effort params ob) ob) dt))))
               (\<lambda>logs. Inr (- sum_list logs))"
    unfolding negloglike_def c using assms(8) by (simp add: bindF_def)
next
  fix ob assume "ob \<in> set dt"
  then have w: "0 < wage ob" using assms(7) by (simp add: list_all_iff)
  show "predchoice params (add_dummies ob) = Inr (spec_optimal_effort params ob)"
    using predchoice_spec [OF assms(1-5) w] by (simp add: predchoice_add_dummies)
  show "prob_obs lib params (add_dummies ob)
              = Inr (spec_tobit_likelihood lib (params ! 6) (spec_optimal_effort params ob) ob)"
    by (rule prob_obs_spec [OF assms(1-6) w])
qed

theorem negloglike_is_tobit_witness:
  "collect (map (prob_obs \<lparr>pdf = gauss_pdf, cdf = logistic\<rparr>
                  [1, 1, 1, 2, 50, 0, 40])
      (map add_dummies
         [\<lparr>wid = 1, netdistance = 0, wage = 1, today = 0, prediction = 0, pb = 0,
           effort = 50, ind_effort10 = 0, ind_effort110 = 0\<rparr>,
          \<lparr>wid = 1, netdistance = 0, wage = 1, today = 0, prediction = 0, pb = 0,
           effort = 10, ind_effort10 = 0, ind_effort110 = 0\<rparr>,
          \<lparr>wid = 1, netdistance = 0, wage = 1, today = 0, prediction = 0, pb = 0,
           effort = 110, ind_effort10 = 0, ind_effort110 = 0\<rparr>]))
   = Inr [gauss_pdf 50 50 40, 1 - logistic ((50 - 10) / 40), logistic ((50 - 110) / 40)] \<and>
   predchoice [1, 1, 1, 2, 50, 0, 40]
     (add_dummies \<lparr>wid = 1, netdistance = 0, wage = 1, today = 0, prediction = 0, pb = 0,
                   effort = 10, ind_effort10 = 0, ind_effort110 = 0\<rparr>) = Inr 50"
  using negloglike_is_tobit
    [of "[1, 1, 1, 2, 50, 0, 40]"
        "[\<lparr>wid = 1, netdistance = 0, wage = 1, today = 0, prediction = 0, pb = 0,
           effort = 50, ind_effort10 = 0, ind_effort110 = 0\<rparr>,
          \<lparr>wid = 1, netdistance = 0, wage = 1, today = 0, prediction = 0, pb = 0,
           effort = 10, ind_effort10 = 0, ind_effort110 = 0\<rparr>,
          \<lparr>wid = 1, netdistance = 0, wage = 1, today = 0, prediction = 0, pb = 0,
           effort = 110, ind_effort10 = 0, ind_effort110 = 0\<rparr>]"
        "\<lparr>pdf = gauss_pdf, cdf = logistic\<rparr>"]
  by (simp add: spec_tobit_likelihood_def spec_optimal_effort_def)


subsection \<open>Finiteness and sign of the two likelihoods\<close>

lemma series_sum_Finite: "series_sum (map Finite ls) = Finite (sum_list ls)"
proof -
  have "filter (\<lambda>x. x \<noteq> NaN) (map Finite ls) = map Finite ls"
    by (induction ls) simp_all
  moreover have "PlusInf \<notin> set (map Finite ls)" "MinusInf \<notin> set (map Finite ls)" by auto
  moreover have "map fin_val (map Finite ls) = ls" by (induction ls) simp_all
  ultimately show ?thesis unfolding series_sum_def Let_def by (simp only: if_False simp_thms)
qed




lemma series_sum_skipna: "series_sum (filter (\<lambda>x. x \<noteq> NaN) xs) = series_sum xs"
  by (simp add: series_sum_def)

lemma probs_pos: "0 < probs beta sigma ob"
  by (simp add: probs_def add_pos_pos zero_less_power_int)

lemma loglike_dummy_f64_exact:
  "loglike_dummy_f64 (\<lambda>v ob. Finite (probs (butlast v) (exp (last v)) ob)) v batch
   = (case loglike_dummy v batch of Inl e \<Rightarrow> Inl e | Inr r \<Rightarrow> Inr (Finite r))"
proof -
  have a: "map (\<lambda>ob. np_log_f64 (Finite (probs (butlast v) (exp (last v)) ob))) batch
        = map Finite (map (\<lambda>ob. ln (probs (butlast v) (exp (last v)) ob)) batch)"
    by (simp add: probs_pos)
  have c: "f64_neg (series_sum (map (\<lambda>ob. np_log_f64 (Finite (probs (butlast v) (exp (last v)) ob))) batch))
        = Finite (- sum_list (map (\<lambda>ob. ln (probs (butlast v) (exp (last v)) ob)) batch))"
    unfolding a series_sum_Finite by simp
  have b: "collect (map (\<lambda>ob. np_log (probs (butlast v) (exp (last v)) ob)) batch)
        = Inr (map (\<lambda>ob. ln (probs (butlast v) (exp (last v)) ob)) batch)"
    by (rule collect_map_cong_Inr) (simp add: np_log_def probs_pos)
  show ?thesis
    unfolding loglike_dummy_f64_def loglike_dummy_def c b by (simp add: bindF_def)
qed








subsection \<open>Symmetry of the gradient contributions\<close>

lemma is_mat_row: "is_mat r c A \<Longrightarrow> i < r \<Longrightarrow> length (A ! i) = c"
  by (simp add: is_mat_def list_all_length)

lemma is_matI: "length A = r \<Longrightarrow> (\<And>i. i < r \<Longrightarrow> length (A ! i) = c) \<Longrightarrow> is_mat r c A"
  by (simp add: is_mat_def list_all_length)

lemma length_vadd: "length (vadd a b) = min (length a) (length b)"
  by (simp add: vadd_def)

lemma vadd_nth: "i < length a \<Longrightarrow> i < length b \<Longrightarrow> vadd a b ! i = a ! i + b ! i"
  by (simp add: vadd_def)

lemma col_sums_length_aux:
  "length acc = k \<Longrightarrow> (\<And>row. row \<in> set rows \<Longrightarrow> length row = k) \<Longrightarrow>
   length (foldl vadd acc rows) = k"
  by (induction rows arbitrary: acc) (simp_all add: length_vadd)

lemma col_sums_length:
  "(\<And>row. row \<in> set rows \<Longrightarrow> length row = k) \<Longrightarrow> length (col_sums k rows) = k"
  unfolding col_sums_def by (rule col_sums_length_aux) simp_all

lemma is_mat_outer: "is_mat (length a) (length b) (outer a b)"
  by (simp add: is_mat_def outer_def list_all_iff)

lemma outer_nth: "i < length a \<Longrightarrow> j < length b \<Longrightarrow> outer a b ! i ! j = a ! i * b ! j"
  by (simp add: outer_def)

lemma is_mat_mat_add: "is_mat r c A \<Longrightarrow> is_mat r c B \<Longrightarrow> is_mat r c (mat_add A B)"
  by (rule is_matI) (simp_all add: mat_add_def is_mat_def list_all_length length_vadd)

lemma mat_add_nth:
  "is_mat r c A \<Longrightarrow> is_mat r c B \<Longrightarrow> i < r \<Longrightarrow> j < c \<Longrightarrow>
   mat_add A B ! i ! j = A ! i ! j + B ! i ! j"
  by (simp add: mat_add_def is_mat_def list_all_length vadd_nth)

lemma sym_mat_zeros: "sym_mat k (zeros k)"
  by (simp add: sym_mat_def zeros_def is_mat_def list_all_iff)

lemma sym_mat_outer: "length g = k \<Longrightarrow> sym_mat k (outer g g)"
  using is_mat_outer [of g g] by (simp add: sym_mat_def outer_nth mult.commute)

lemma sym_mat_add:
  assumes "sym_mat k A" and "sym_mat k B"
  shows "sym_mat k (mat_add A B)"
proof -
  have a: "is_mat k k A" and b: "is_mat k k B" using assms by (simp_all add: sym_mat_def)
  have "mat_add A B ! i ! j = mat_add A B ! j ! i" if "i < k" "j < k" for i j
    using assms that by (simp add: mat_add_nth [OF a b] sym_mat_def)
  then show ?thesis using is_mat_mat_add [OF a b] by (simp add: sym_mat_def)
qed

lemma sym_mat_transpose:
  assumes "sym_mat k S"
  shows "transpose S = S"
proof (cases "k = 0")
  case True
  then show ?thesis using assms by (simp add: sym_mat_def is_mat_def)
next
  case False
  have len: "length S = k" and rows: "\<And>i. i < k \<Longrightarrow> length (S ! i) = k"
    and sym: "\<And>i j. i < k \<Longrightarrow> j < k \<Longrightarrow> S ! i ! j = S ! j ! i"
    using assms by (simp_all add: sym_mat_def is_mat_def list_all_length)
  have ne: "S \<noteq> []" using False len by auto
  have "transpose S = map (\<lambda>i. map (\<lambda>j. S ! j ! i) [0..<length S]) [0..<k]"
    by (rule transpose_rectangle) (use ne rows len in auto)
  also have "\<dots> = S"
    by (rule nth_equalityI) (auto simp: len rows sym intro!: nth_equalityI)
  finally show ?thesis .
qed

lemma cluster_step_sym:
  assumes "sym_mat k S" and "\<And>row. row \<in> set gradi \<Longrightarrow> length row = k"
    and "length clusters = length gradi"
  shows "sym_mat k (cluster_step k clusters gradi c S)"
proof -
  let ?sel = "filter (\<lambda>m. clusters ! m = c) [0..<length clusters]"
  have "length (col_sums k (map (\<lambda>m. gradi ! m) ?sel)) = k"
    by (rule col_sums_length) (use assms(2,3) in auto)
  then show ?thesis
    unfolding cluster_step_def Let_def
    by (intro sym_mat_add assms(1) sym_mat_outer)
qed

lemma fold_cluster_step_sym:
  assumes "sym_mat k S" and "\<And>row. row \<in> set gradi \<Longrightarrow> length row = k"
    and "length clusters = length gradi"
  shows "sym_mat k (fold (cluster_step k clusters gradi) cl S)"
  using assms(1)
  by (induction cl arbitrary: S) (simp_all add: cluster_step_sym [OF _ assms(2,3)])

lemma length_gradi_row:
  "shape_ok beta ob \<Longrightarrow> length (gradi_row beta sigma ob) = Suc (length beta)"
  by (simp add: gradi_row_def Let_def shape_ok_def)

lemma congradloglike_sym:
  assumes "v \<noteq> []" and "list_all (shape_ok (butlast v)) batch" and "batch \<noteq> []"
    and "list_all (\<lambda>ob. choice_x ob \<le> 1) batch" and "butlast v \<noteq> []"
  shows "\<exists>G. congradloglike v batch = Inr G \<and> sym_mat (length v) G"
proof -
  let ?gradi = "map (gradi_row (butlast v) (exp (last v))) batch"
  have rows: "\<And>row. row \<in> set ?gradi \<Longrightarrow> length row = length v"
    using assms(1,2) by (auto simp: list_all_iff length_gradi_row)
  have "?gradi \<noteq> []" using assms(3) by simp
  then have "hd ?gradi \<in> set ?gradi" by (rule hd_in_set)
  then have k: "length (hd ?gradi) = length v" by (rule rows)
  have "sym_mat (length v)
          (fold (cluster_step (length v) (map sid batch) ?gradi) (np_unique (map sid batch))
             (zeros (length v)))"
    by (rule fold_cluster_step_sym [OF sym_mat_zeros rows]) simp_all
  moreover have "congradloglike v batch =
     Inr (fold (cluster_step (length v) (map sid batch) ?gradi) (np_unique (map sid batch))
             (zeros (length v)))"
    using assms k unfolding congradloglike_def Let_def by simp
  ultimately show ?thesis by simp
qed

lemma sym_mat_shift: "sym_mat k G \<Longrightarrow> sym_mat k (map (map (\<lambda>a. a + c)) G)"
  by (simp add: sym_mat_def is_mat_def list_all_length)

lemma iadd_outer_sym:
  "sym_mat k G \<Longrightarrow> iadd_outer G g = Inr G' \<Longrightarrow> sym_mat k G'"
  by (auto simp: iadd_outer_def sym_mat_shift split: if_splits
           intro!: sym_mat_add sym_mat_outer)
     (simp add: sym_mat_def is_mat_def)

lemma iadd_outer_total:
  "sym_mat k G \<Longrightarrow> length g = k \<Longrightarrow> \<exists>G'. iadd_outer G g = Inr G'"
  by (simp add: iadd_outer_def sym_mat_def is_mat_def)

lemma length_zip_sums:
  assumes "rows \<noteq> []" and "\<And>row. row \<in> set rows \<Longrightarrow> length row = k"
  shows "length (zip_sums rows) = k"
proof -
  have "set (map length rows) = {k}" using assms by (cases rows) auto
  then show ?thesis using assms(1) by (simp add: zip_sums_def)
qed

lemma set_np_unique: "set (np_unique ids) = set ids"
  by (simp add: np_unique_def)

lemma fold_iadd_sym:
  assumes "sym_mat k G0"
  shows "fold (\<lambda>w acc. bindF acc (\<lambda>G. iadd_outer G (f w))) ws (Inr G0) = Inr G
         \<Longrightarrow> sym_mat k G"
  using assms
proof (induction ws arbitrary: G0)
  case Nil
  then show ?case by simp
next
  case (Cons w ws)
  show ?case
  proof (cases "iadd_outer G0 (f w)")
    case (Inl e)
    have "fold (\<lambda>w acc. bindF acc (\<lambda>G. iadd_outer G (f w))) ws (Inl e) = Inl e"
      by (induction ws) (simp_all add: bindF_def)
    then show ?thesis using Cons.prems(1) Inl by (simp add: bindF_def)
  next
    case (Inr G1)
    have "sym_mat k G1" using iadd_outer_sym [OF Cons.prems(2) Inr] .
    then show ?thesis using Cons.IH [of G1] Cons.prems(1) Inr by (simp add: bindF_def)
  qed
qed

lemma fold_iadd_total:
  assumes "sym_mat k G0" and "\<And>w. w \<in> set ws \<Longrightarrow> length (f w) = k"
  shows "\<exists>G. fold (\<lambda>w acc. bindF acc (\<lambda>G. iadd_outer G (f w))) ws (Inr G0) = Inr G"
  using assms
proof (induction ws arbitrary: G0)
  case Nil
  then show ?case by simp
next
  case (Cons w ws)
  obtain G1 where g1: "iadd_outer G0 (f w) = Inr G1"
    using iadd_outer_total [OF Cons.prems(1), of "f w"] Cons.prems(2) by auto
  have "sym_mat k G1" using iadd_outer_sym [OF Cons.prems(1) g1] .
  then show ?case using Cons.IH [of G1] Cons.prems(2) g1 by (simp add: bindF_def)
qed

lemma gradcontr_sym:
  "gradcontr gradfun dt parameters = Inr G \<Longrightarrow> sym_mat (length parameters) G"
  unfolding gradcontr_def Let_def
  by (rule fold_iadd_sym [OF sym_mat_zeros])

lemma gradcontr_total:
  assumes "\<And>ob. ob \<in> set dt \<Longrightarrow> length (gradfun parameters ob) = length parameters"
  shows "\<exists>G. gradcontr gradfun dt parameters = Inr G"
  unfolding gradcontr_def Let_def
proof (rule fold_iadd_total [OF sym_mat_zeros])
  fix w assume "w \<in> set (np_unique (map wid dt))"
  then obtain ob where ob: "ob \<in> set dt" "wid ob = w" by (auto simp: set_np_unique)
  let ?rows = "map snd (filter (\<lambda>row. fst row = w) (zip (map wid dt) (map (gradfun parameters) dt)))"
  have z: "zip (map wid dt) (map (gradfun parameters) dt) = map (\<lambda>ob. (wid ob, gradfun parameters ob)) dt"
    by (induction dt) simp_all
  have "gradfun parameters ob \<in> set ?rows" using ob unfolding z by force
  then have "0 < length ?rows" by (rule length_pos_if_in_set)
  then have ne: "?rows \<noteq> []" by (metis length_greater_0_conv)
  have "\<And>row. row \<in> set ?rows \<Longrightarrow> length row = length parameters"
    unfolding z using assms by auto
  with ne show "length (zip_sums ?rows) = length parameters" by (rule length_zip_sums)
qed

text \<open>
  C5. For every parameter vector and every batch, whatever the clusters are, the matrix
  that \<open>congradloglike\<close> returns equals its transpose, and it does return one for
  every parameter vector with at least two entries and every non-empty batch of matching
  shape with choices at most 1. The same holds of \<open>gradcontr\<close> for every gradient function, data frame and
  parameter vector; it returns a matrix whenever every gradient is as long as the
  parameter vector.
\<close>

theorem gradient_contributions_symmetric:
  "(1 < length v \<and> list_all (shape_ok (butlast v)) batch \<and> batch \<noteq> [] \<and>
    list_all (\<lambda>ob. choice_x ob \<le> 1) batch
      \<longrightarrow> (\<exists>G. congradloglike v batch = Inr G)) \<and>
   (congradloglike v batch = Inr G \<longrightarrow> transpose G = G) \<and>
   (list_all (\<lambda>ob. length (gradfun parameters ob) = length parameters) dt
      \<longrightarrow> (\<exists>G. gradcontr gradfun dt parameters = Inr G)) \<and>
   (gradcontr gradfun dt parameters = Inr G' \<longrightarrow> transpose G' = G')"
proof (intro conjI impI)
  assume h: "1 < length v \<and> list_all (shape_ok (butlast v)) batch \<and> batch \<noteq> [] \<and>
    list_all (\<lambda>ob. choice_x ob \<le> 1) batch"
  then have "v \<noteq> []" and "butlast v \<noteq> []" by (auto simp: length_greater_0_conv [symmetric] simp del: length_greater_0_conv)
  then show "\<exists>G. congradloglike v batch = Inr G" using h congradloglike_sym by blast
next
  assume g: "congradloglike v batch = Inr G"
  then have "v \<noteq> []" "list_all (shape_ok (butlast v)) batch" "batch \<noteq> []"
    "list_all (\<lambda>ob. choice_x ob \<le> 1) batch" "butlast v \<noteq> []"
    by (auto simp: congradloglike_def split: if_splits)
  from congradloglike_sym [OF this] g have "sym_mat (length v) G" by simp
  then show "transpose G = G" by (rule sym_mat_transpose)
next
  assume "list_all (\<lambda>ob. length (gradfun parameters ob) = length parameters) dt"
  then show "\<exists>G. gradcontr gradfun dt parameters = Inr G"
    by (intro gradcontr_total) (simp add: list_all_iff)
next
  assume "gradcontr gradfun dt parameters = Inr G'"
  then show "transpose G' = G'" using gradcontr_sym sym_mat_transpose by blast
qed

theorem gradient_contributions_symmetric_witness:
  "congradloglike [0, 0]
     [\<lparr>sid = 1, choice_x = 1, self_x = 0, other_x = 2, self_y = 0, other_y = 0,
       indicators_x = [1], indicators_y = [0]\<rparr>,
      \<lparr>sid = 2, choice_x = 0, self_x = 0, other_x = 4, self_y = 0, other_y = 0,
       indicators_x = [1], indicators_y = [0]\<rparr>]
   = Inr [[5, 0], [0, 0]] \<and>
   transpose [[5, 0], [0, 0 :: real]] = [[5, 0], [0, 0]] \<and>
   gradcontr (\<lambda>p ob. [effort ob, wage ob])
     [\<lparr>wid = 1, netdistance = 0, wage = 2, today = 0, prediction = 0, pb = 0,
       effort = 1, ind_effort10 = 0, ind_effort110 = 0\<rparr>,
      \<lparr>wid = 2, netdistance = 0, wage = 1, today = 0, prediction = 0, pb = 0,
       effort = 3, ind_effort10 = 0, ind_effort110 = 0\<rparr>,
      \<lparr>wid = 1, netdistance = 0, wage = 0, today = 0, prediction = 0, pb = 0,
       effort = 2, ind_effort10 = 0, ind_effort110 = 0\<rparr>] [0, 0]
   = Inr [[18, 9], [9, 5]] \<and>
   transpose [[18, 9], [9, 5 :: real]] = [[18, 9], [9, 5]]"
proof -
  let ?B = "[\<lparr>sid = 1, choice_x = 1, self_x = 0, other_x = 2, self_y = 0, other_y = 0,
       indicators_x = [1], indicators_y = [0]\<rparr>,
      \<lparr>sid = 2, choice_x = 0, self_x = 0, other_x = 4, self_y = 0, other_y = 0,
       indicators_x = [1], indicators_y = [0]\<rparr>]"
  let ?D = "[\<lparr>wid = 1, netdistance = 0, wage = 2, today = 0, prediction = 0, pb = 0,
       effort = 1, ind_effort10 = 0, ind_effort110 = 0\<rparr>,
      \<lparr>wid = 2, netdistance = 0, wage = 1, today = 0, prediction = 0, pb = 0,
       effort = 3, ind_effort10 = 0, ind_effort110 = 0\<rparr>,
      \<lparr>wid = 1, netdistance = 0, wage = 0, today = 0, prediction = 0, pb = 0,
       effort = 2, ind_effort10 = 0, ind_effort110 = 0\<rparr>]"
  have G: "congradloglike [0, 0] ?B = Inr [[5, 0], [0, 0]]"
    by (simp add: congradloglike_def shape_ok_def np_unique_def cluster_step_def col_sums_def
      gradi_row_def uleft_def uright_def lli_def rli_def dot_def probs_def zeros_def
      mat_add_def vadd_def outer_def upt_rec numeral_2_eq_2 Let_def power2_eq_square)
  have G': "gradcontr (\<lambda>p ob. [effort ob, wage ob]) ?D [0, 0] = Inr [[18, 9], [9, 5]]"
    by (simp add: gradcontr_def np_unique_def zip_sums_def iadd_outer_def bindF_def zeros_def
      mat_add_def vadd_def outer_def upt_rec numeral_2_eq_2)
  show ?thesis
    using gradient_contributions_symmetric
      [of "[0, 0]" ?B "[[5, 0], [0, 0]]" "\<lambda>p ob. [effort ob, wage ob]" "[0, 0]" ?D
          "[[18, 9], [9, 5]]"] G G'
    by blast
qed


subsection \<open>The sandwich variance\<close>

lemma sum_list_upt_sum: "sum_list (map f [0..<n]) = (\<Sum>l<n. (f l :: real))"
  by (simp add: interv_sum_list_conv_sum_set_nat lessThan_atLeast0)

lemma ncols_is_mat: "is_mat K K A \<Longrightarrow> ncols A = K"
  by (cases A) (auto simp: ncols_def is_mat_def)

lemma matmul_square:
  assumes "is_mat K K A" and "is_mat K K B"
  shows "\<exists>M. matmul A B = Inr M \<and> is_mat K K M \<and>
             (\<forall>i<K. \<forall>j<K. M ! i ! j = (\<Sum>l<K. A ! i ! l * B ! l ! j))"
proof -
  have lb: "length B = K" and la: "length A = K" using assms by (simp_all add: is_mat_def)
  have rows: "list_all (\<lambda>row. length row = length B) A"
    using assms by (simp add: is_mat_def)
  let ?M = "map (\<lambda>row. map (\<lambda>j. sum_list (map (\<lambda>k. row ! k * B ! k ! j) [0..<length B]))
                            [0..<ncols B]) A"
  have m: "matmul A B = Inr ?M" using rows by (simp add: matmul_def)
  have "is_mat K K ?M"
    using la ncols_is_mat [OF assms(2)] by (simp add: is_mat_def list_all_iff)
  moreover have "\<forall>i<K. \<forall>j<K. ?M ! i ! j = (\<Sum>l<K. A ! i ! l * B ! l ! j)"
    using la lb ncols_is_mat [OF assms(2)] by (simp add: sum_list_upt_sum)
  ultimately show ?thesis using m by blast
qed

lemma is_mat_scale: "is_mat r c A \<Longrightarrow> is_mat r c (mat_scale a A)"
  by (simp add: is_mat_def mat_scale_def list_all_iff)

lemma mat_scale_nth:
  "is_mat r c A \<Longrightarrow> i < r \<Longrightarrow> j < c \<Longrightarrow> mat_scale a A ! i ! j = a * A ! i ! j"
  by (simp add: is_mat_def mat_scale_def list_all_length)

lemma sandwich_varcov_entries:
  assumes "is_mat K K Hinv" and "is_mat K K G"
  shows "\<exists>V. sandwich_varcov a Hinv G = Inr V \<and> is_mat K K V \<and>
             (\<forall>i<K. \<forall>j<K. V ! i ! j = spec_sandwich_entry a Hinv G K i j)"
proof -
  obtain HG where hg: "matmul Hinv G = Inr HG" "is_mat K K HG"
    "\<forall>i<K. \<forall>j<K. HG ! i ! j = (\<Sum>m<K. Hinv ! i ! m * G ! m ! j)"
    using matmul_square [OF assms] by blast
  obtain HGH where hgh: "matmul HG Hinv = Inr HGH" "is_mat K K HGH"
    "\<forall>i<K. \<forall>j<K. HGH ! i ! j = (\<Sum>l<K. HG ! i ! l * Hinv ! l ! j)"
    using matmul_square [OF hg(2) assms(1)] by blast
  have v: "sandwich_varcov a Hinv G = Inr (mat_scale a HGH)"
    by (simp add: sandwich_varcov_def bindF_def hg(1) hgh(1))
  have "mat_scale a HGH ! i ! j = spec_sandwich_entry a Hinv G K i j" if "i < K" "j < K" for i j
  proof -
    have "HGH ! i ! j = (\<Sum>l<K. (\<Sum>m<K. Hinv ! i ! m * G ! m ! l) * Hinv ! l ! j)"
      using hgh(3) hg(3) that by simp
    also have "\<dots> = (\<Sum>l<K. \<Sum>m<K. Hinv ! i ! m * G ! m ! l * Hinv ! l ! j)"
      by (simp add: sum_distrib_right)
    finally show ?thesis
      using that by (simp add: mat_scale_nth [OF hgh(2)] spec_sandwich_entry_def)
  qed
  then show ?thesis using v is_mat_scale [OF hgh(2)] by blast
qed

lemma np_diag_square: "is_mat K K V \<Longrightarrow> np_diag V = map (\<lambda>i. V ! i ! i) [0..<K]"
  by (simp add: np_diag_def ncols_is_mat) (simp add: is_mat_def)

lemma collect_length: "collect rs = Inr as \<Longrightarrow> length as = length rs"
  by (induction rs arbitrary: as) (auto split: sum.splits)

lemma collect_nth: "collect rs = Inr as \<Longrightarrow> i < length rs \<Longrightarrow> rs ! i = Inr (as ! i)"
proof (induction rs arbitrary: as i)
  case Nil
  then show ?case by simp
next
  case (Cons r rs)
  then show ?case by (cases i) (auto split: sum.splits)
qed

lemma se_of_varcov_sqrt:
  assumes "is_mat K K V" and "se_of_varcov V = Inr se"
  shows "length se = K \<and> (\<forall>i<K. se ! i = sqrt (V ! i ! i))"
proof -
  have c: "collect (map np_sqrt (map (\<lambda>i. V ! i ! i) [0..<K])) = Inr se"
    using assms by (simp add: se_of_varcov_def np_diag_square)
  have len: "length se = K" using collect_length [OF c] by simp
  have "se ! i = sqrt (V ! i ! i)" if "i < K" for i
  proof -
    have "np_sqrt (V ! i ! i) = Inr (se ! i)" using collect_nth [OF c, of i] that by simp
    then show ?thesis by (simp add: np_sqrt_def split: if_splits)
  qed
  then show ?thesis using len by blast
qed

lemma se_of_varcov_total:
  assumes "is_mat K K V" and "\<forall>i<K. 0 \<le> V ! i ! i"
  shows "se_of_varcov V = Inr (map (\<lambda>i. sqrt (V ! i ! i)) [0..<K])"
proof -
  have "collect (map (\<lambda>i. np_sqrt (V ! i ! i)) [0..<K]) = Inr (map (\<lambda>i. sqrt (V ! i ! i)) [0..<K])"
    by (rule collect_map_cong_Inr) (use assms(2) in \<open>simp add: np_sqrt_def\<close>)
  then show ?thesis using assms(1) by (simp add: se_of_varcov_def np_diag_square comp_def)
qed

lemma length_np_unique: "length (np_unique ids) = card (set ids)"
  by (simp add: np_unique_def length_remdups_card_conv)

lemma congradloglike_Inr_sym:
  assumes g: "congradloglike v batch = Inr G"
  shows "sym_mat (length v) G"
proof -
  from g have "v \<noteq> []" "list_all (shape_ok (butlast v)) batch" "batch \<noteq> []"
    "list_all (\<lambda>ob. choice_x ob \<le> 1) batch" "butlast v \<noteq> []"
    by (auto simp: congradloglike_def split: if_splits)
  from congradloglike_sym [OF this] g show ?thesis by simp
qed

lemma varcov_from_parts:
  assumes "is_mat K K Hinv" and "is_mat K K G"
  shows "\<exists>V. sandwich_varcov a Hinv G = Inr V \<and> is_mat K K V \<and>
          (\<forall>i<K. \<forall>j<K. V ! i ! j = spec_sandwich_entry a Hinv G K i j) \<and>
          (\<forall>se. se_of_varcov V = Inr se \<longrightarrow>
                  length se = K \<and> (\<forall>i<K. se ! i = sqrt (V ! i ! i))) \<and>
          ((\<forall>i<K. 0 \<le> V ! i ! i) \<longrightarrow>
             se_of_varcov V = Inr (map (\<lambda>i. sqrt (V ! i ! i)) [0..<K]))"
proof -
  obtain V where v: "sandwich_varcov a Hinv G = Inr V" "is_mat K K V"
    "\<forall>i<K. \<forall>j<K. V ! i ! j = spec_sandwich_entry a Hinv G K i j"
    using sandwich_varcov_entries [OF assms] by blast
  show ?thesis
    using v se_of_varcov_sqrt [OF v(2)] se_of_varcov_total [OF v(2)] by blast
qed

text \<open>
  C2. Let \<open>K\<close> be the length of the optimised vector, \<open>N\<close> the number of observations
  and \<open>J\<close> the number of distinct cluster identifiers, with \<open>N \<noteq> K\<close> and \<open>J \<noteq> 1\<close>, let
  the inverse Hessian be a \<open>K\<close> by \<open>K\<close> array and \<open>G\<close> the matrix of gradient
  contributions (\<open>congradloglike\<close> in the discrete-choice notebook, \<open>gradcontr\<close> in the
  effort notebook). Then the variance matrix of the notebook is the \<open>K\<close> by \<open>K\<close> array
  whose entry \<open>(i, j)\<close> is that of \<open>Adj \<cdot> H\<^sup>-\<^sup>1 \<cdot> G \<cdot> H\<^sup>-\<^sup>1\<close> with
  \<open>Adj = (N-1)/(N-K) \<cdot> J/(J-1)\<close>, and the standard errors computed from it are the
  square roots of its diagonal (they exist where the diagonal is non-negative). In the
  discrete-choice notebook the last of them is then rescaled by the delta method.
\<close>

theorem sandwich_variance_formula:
  "(is_mat (length res1) (length res1) inv_hess \<and> congradloglike res1 dt1 = Inr G \<and>
    length dt1 \<noteq> length res1 \<and> length (np_unique (map sid dt1)) \<noteq> 1
      \<longrightarrow> (\<exists>V. varcov_s1 inv_hess res1 dt1 = Inr V \<and>
             is_mat (length res1) (length res1) V \<and>
             (\<forall>i<length res1. \<forall>j<length res1.
                V ! i ! j =
                  spec_sandwich_entry
                    (spec_adj (int (length dt1)) (int (length res1))
                       (int (card (set (map sid dt1)))))
                    inv_hess G (length res1) i j) \<and>
             (\<forall>se. se_of_varcov V = Inr se \<longrightarrow>
                length se = length res1 \<and> (\<forall>i<length res1. se ! i = sqrt (V ! i ! i))) \<and>
             ((\<forall>i<length res1. 0 \<le> V ! i ! i) \<longrightarrow>
                se_of_varcov V = Inr (map (\<lambda>i. sqrt (V ! i ! i)) [0..<length res1])))) \<and>
   (is_mat (length res2) (length res2) hess_inv \<and> gradcontr gradfun dt res2 = Inr G' \<and>
    length dt \<noteq> length res2 \<and> length (np_unique (map wid dt)) \<noteq> 1
      \<longrightarrow> (\<exists>V. varcov_estimates gradfun hess_inv res2 dt = Inr V \<and>
             is_mat (length res2) (length res2) V \<and>
             (\<forall>i<length res2. \<forall>j<length res2.
                V ! i ! j =
                  spec_sandwich_entry
                    (spec_adj (int (length dt)) (int (length res2))
                       (int (card (set (map wid dt)))))
                    hess_inv G' (length res2) i j) \<and>
             (\<forall>se. se_of_varcov V = Inr se \<longrightarrow>
                length se = length res2 \<and> (\<forall>i<length res2. se ! i = sqrt (V ! i ! i))) \<and>
             ((\<forall>i<length res2. 0 \<le> V ! i ! i) \<longrightarrow>
                se_of_varcov V = Inr (map (\<lambda>i. sqrt (V ! i ! i)) [0..<length res2]))))"
proof (intro conjI impI)
  assume h: "is_mat (length res1) (length res1) inv_hess \<and> congradloglike res1 dt1 = Inr G \<and>
    length dt1 \<noteq> length res1 \<and> length (np_unique (map sid dt1)) \<noteq> 1"
  let ?a = "spec_adj (int (length dt1)) (int (length res1)) (int (card (set (map sid dt1))))"
  have g: "is_mat (length res1) (length res1) G"
    using congradloglike_Inr_sym [of res1 dt1 G] h by (simp add: sym_mat_def)
  have a: "adj_s1 (int (length dt1)) (int (length res1))
             (int (length (np_unique (map sid dt1)))) = Inr ?a"
    using h by (simp add: adj_s1_defined length_np_unique)
  have "varcov_s1 inv_hess res1 dt1 = sandwich_varcov ?a inv_hess G"
    using h a by (simp add: varcov_s1_def bindF_def)
  then show "\<exists>V. varcov_s1 inv_hess res1 dt1 = Inr V \<and>
             is_mat (length res1) (length res1) V \<and>
             (\<forall>i<length res1. \<forall>j<length res1.
                V ! i ! j = spec_sandwich_entry ?a inv_hess G (length res1) i j) \<and>
             (\<forall>se. se_of_varcov V = Inr se \<longrightarrow>
                length se = length res1 \<and> (\<forall>i<length res1. se ! i = sqrt (V ! i ! i))) \<and>
             ((\<forall>i<length res1. 0 \<le> V ! i ! i) \<longrightarrow>
                se_of_varcov V = Inr (map (\<lambda>i. sqrt (V ! i ! i)) [0..<length res1]))"
    using varcov_from_parts [of "length res1" inv_hess G ?a] h g by simp
next
  assume h: "is_mat (length res2) (length res2) hess_inv \<and> gradcontr gradfun dt res2 = Inr G' \<and>
    length dt \<noteq> length res2 \<and> length (np_unique (map wid dt)) \<noteq> 1"
  let ?a = "spec_adj (int (length dt)) (int (length res2)) (int (card (set (map wid dt))))"
  have g: "is_mat (length res2) (length res2) G'"
    using gradcontr_sym [of gradfun dt res2 G'] h by (simp add: sym_mat_def)
  have a: "adj_ar (int (length dt)) (int (length res2))
             (int (length (np_unique (map wid dt)))) = Inr ?a"
    using h by (simp add: adj_ar_defined length_np_unique)
  have "varcov_estimates gradfun hess_inv res2 dt = sandwich_varcov ?a hess_inv G'"
    using h a by (simp add: varcov_estimates_def bindF_def)
  then show "\<exists>V. varcov_estimates gradfun hess_inv res2 dt = Inr V \<and>
             is_mat (length res2) (length res2) V \<and>
             (\<forall>i<length res2. \<forall>j<length res2.
                V ! i ! j = spec_sandwich_entry ?a hess_inv G' (length res2) i j) \<and>
             (\<forall>se. se_of_varcov V = Inr se \<longrightarrow>
                length se = length res2 \<and> (\<forall>i<length res2. se ! i = sqrt (V ! i ! i))) \<and>
             ((\<forall>i<length res2. 0 \<le> V ! i ! i) \<longrightarrow>
                se_of_varcov V = Inr (map (\<lambda>i. sqrt (V ! i ! i)) [0..<length res2]))"
    using varcov_from_parts [of "length res2" hess_inv G' ?a] h g by simp
qed

theorem sandwich_variance_formula_witness:
  "varcov_s1 [[1, 2], [2, 3]] [0, 0]
     [\<lparr>sid = 1, choice_x = 1, self_x = 0, other_x = 2, self_y = 0, other_y = 0,
       indicators_x = [1], indicators_y = [0]\<rparr>,
      \<lparr>sid = 2, choice_x = 0, self_x = 0, other_x = 4, self_y = 0, other_y = 0,
       indicators_x = [1], indicators_y = [0]\<rparr>,
      \<lparr>sid = 1, choice_x = 1, self_x = 0, other_x = 2, self_y = 0, other_y = 0,
       indicators_x = [1], indicators_y = [0]\<rparr>]
     = Inr [[32, 64], [64, 128]] \<and>
   spec_sandwich_entry (spec_adj 3 2 2) [[1, 2], [2, 3]] [[8, 0], [0, 0]] 2 0 1 = 64 \<and>
   spec_sandwich_entry (spec_adj 3 2 2) [[1, 2], [2, 3]] [[8, 0], [0, 0]] 2 1 1 = 128 \<and>
   se_of_varcov [[32, 64], [64, 128]] = Inr [sqrt 32, sqrt 128] \<and>
   varcov_estimates (\<lambda>p ob. [effort ob, wage ob]) [[1, 0], [0, 1]] [0, 0]
     [\<lparr>wid = 1, netdistance = 0, wage = 2, today = 0, prediction = 0, pb = 0,
       effort = 1, ind_effort10 = 0, ind_effort110 = 0\<rparr>,
      \<lparr>wid = 2, netdistance = 0, wage = 1, today = 0, prediction = 0, pb = 0,
       effort = 3, ind_effort10 = 0, ind_effort110 = 0\<rparr>,
      \<lparr>wid = 1, netdistance = 0, wage = 0, today = 0, prediction = 0, pb = 0,
       effort = 2, ind_effort10 = 0, ind_effort110 = 0\<rparr>]
     = Inr [[72, 36], [36, 20]] \<and>
   spec_sandwich_entry (spec_adj 3 2 2) [[1, 0], [0, 1]] [[18, 9], [9, 5]] 2 1 0 = 36"
proof -
  let ?B = "[\<lparr>sid = 1, choice_x = 1, self_x = 0, other_x = 2, self_y = 0, other_y = 0,
       indicators_x = [1], indicators_y = [0]\<rparr>,
      \<lparr>sid = 2, choice_x = 0, self_x = 0, other_x = 4, self_y = 0, other_y = 0,
       indicators_x = [1], indicators_y = [0]\<rparr>,
      \<lparr>sid = 1, choice_x = 1, self_x = 0, other_x = 2, self_y = 0, other_y = 0,
       indicators_x = [1], indicators_y = [0]\<rparr>]"
  let ?D = "[\<lparr>wid = 1, netdistance = 0, wage = 2, today = 0, prediction = 0, pb = 0,
       effort = 1, ind_effort10 = 0, ind_effort110 = 0\<rparr>,
      \<lparr>wid = 2, netdistance = 0, wage = 1, today = 0, prediction = 0, pb = 0,
       effort = 3, ind_effort10 = 0, ind_effort110 = 0\<rparr>,
      \<lparr>wid = 1, netdistance = 0, wage = 0, today = 0, prediction = 0, pb = 0,
       effort = 2, ind_effort10 = 0, ind_effort110 = 0\<rparr>]"
  let ?gf = "\<lambda>p ob. [effort ob, wage ob]"
  have G: "congradloglike [0, 0] ?B = Inr [[8, 0], [0, 0]]"
    by (simp add: congradloglike_def shape_ok_def np_unique_def cluster_step_def col_sums_def
      gradi_row_def uleft_def uright_def lli_def rli_def dot_def probs_def zeros_def
      mat_add_def vadd_def outer_def upt_rec numeral_2_eq_2 numeral_3_eq_3 Let_def
      power2_eq_square)
  have G': "gradcontr ?gf ?D [0, 0] = Inr [[18, 9], [9, 5]]"
    by (simp add: gradcontr_def np_unique_def zip_sums_def iadd_outer_def bindF_def zeros_def
      mat_add_def vadd_def outer_def upt_rec numeral_2_eq_2)
  have u1: "np_unique (map sid ?B) = [1, 2]" and u2: "np_unique (map wid ?D) = [1, 2]"
    by (simp_all add: np_unique_def)
  have c1: "card (set (map sid ?B)) = 2" and c2: "card (set (map wid ?D)) = 2"
    using length_np_unique [of "map sid ?B"] length_np_unique [of "map wid ?D"] u1 u2
    by simp_all
  have V1: "varcov_s1 [[1, 2], [2, 3]] [0, 0] ?B = Inr [[32, 64], [64, 128]]"
    unfolding varcov_s1_def G u1
    by (simp add: adj_s1_def py_truediv_def bindF_def sandwich_varcov_def matmul_def ncols_def
        mat_scale_def upt_rec numeral_2_eq_2)
  have V2: "varcov_estimates ?gf [[1, 0], [0, 1]] [0, 0] ?D = Inr [[72, 36], [36, 20]]"
    unfolding varcov_estimates_def G' u2
    by (simp add: adj_ar_def py_truediv_def bindF_def sandwich_varcov_def matmul_def ncols_def
        mat_scale_def upt_rec numeral_2_eq_2)
  have m1: "is_mat (length [0, 0 :: real]) (length [0, 0 :: real]) [[1, 2], [2, 3]]"
    and m2: "is_mat (length [0, 0 :: real]) (length [0, 0 :: real]) [[1, 0], [0, 1]]"
    by (simp_all add: is_mat_def)
  have nn: "\<forall>i<length [0, 0 :: real]. 0 \<le> [[32, 64], [64, 128 :: real]] ! i ! i"
    by (simp add: less_Suc_eq numeral_2_eq_2)
  note inst = sandwich_variance_formula
    [of "[0, 0]" "[[1, 2], [2, 3]]" ?B "[[8, 0], [0, 0]]" "[0, 0]" "[[1, 0], [0, 1]]" ?gf ?D
        "[[18, 9], [9, 5]]"]
  have h1: "is_mat (length [0, 0 :: real]) (length [0, 0 :: real]) [[1, 2], [2, 3]] \<and>
      congradloglike [0, 0] ?B = Inr [[8, 0], [0, 0]] \<and>
      length ?B \<noteq> length [0, 0 :: real] \<and> length (np_unique (map sid ?B)) \<noteq> 1"
    using m1 G u1 by simp
  have h2: "is_mat (length [0, 0 :: real]) (length [0, 0 :: real]) [[1, 0], [0, 1]] \<and>
      gradcontr ?gf ?D [0, 0] = Inr [[18, 9], [9, 5]] \<and>
      length ?D \<noteq> length [0, 0 :: real] \<and> length (np_unique (map wid ?D)) \<noteq> 1"
    using m2 G' u2 by simp
  obtain V where v: "varcov_s1 [[1, 2], [2, 3]] [0, 0] ?B = Inr V"
    and ve: "\<forall>i<length [0, 0 :: real]. \<forall>j<length [0, 0 :: real]. V ! i ! j =
                  spec_sandwich_entry
                    (spec_adj (int (length ?B)) (int (length [0, 0 :: real]))
                       (int (card (set (map sid ?B)))))
                    [[1, 2], [2, 3]] [[8, 0], [0, 0]] (length [0, 0 :: real]) i j"
    and vs: "(\<forall>i<length [0, 0 :: real]. 0 \<le> V ! i ! i) \<longrightarrow>
                se_of_varcov V = Inr (map (\<lambda>i. sqrt (V ! i ! i)) [0..<length [0, 0 :: real]])"
    using inst h1 by blast
  obtain W where w: "varcov_estimates ?gf [[1, 0], [0, 1]] [0, 0] ?D = Inr W"
    and we: "\<forall>i<length [0, 0 :: real]. \<forall>j<length [0, 0 :: real]. W ! i ! j =
                  spec_sandwich_entry
                    (spec_adj (int (length ?D)) (int (length [0, 0 :: real]))
                       (int (card (set (map wid ?D)))))
                    [[1, 0], [0, 1]] [[18, 9], [9, 5]] (length [0, 0 :: real]) i j"
    using inst h2 by blast
  have V: "V = [[32, 64], [64, 128]]" using v V1 by simp
  have W: "W = [[72, 36], [36, 20]]" using w V2 by simp
  have e1: "\<And>i j. i < 2 \<Longrightarrow> j < 2 \<Longrightarrow> [[32, 64], [64, 128]] ! i ! j
       = spec_sandwich_entry (spec_adj 3 2 2) [[1, 2], [2, 3]] [[8, 0], [0, 0]] 2 i j"
    using ve unfolding V c1 by (simp add: numeral_2_eq_2)
  have e2: "\<And>i j. i < 2 \<Longrightarrow> j < 2 \<Longrightarrow> [[72, 36], [36, 20]] ! i ! j
       = spec_sandwich_entry (spec_adj 3 2 2) [[1, 0], [0, 1]] [[18, 9], [9, 5]] 2 i j"
    using we unfolding W c2 by (simp add: numeral_2_eq_2)
  have s1: "spec_sandwich_entry (spec_adj 3 2 2) [[1, 2], [2, 3]] [[8, 0], [0, 0]] 2 0 1 = 64 \<and>
      spec_sandwich_entry (spec_adj 3 2 2) [[1, 2], [2, 3]] [[8, 0], [0, 0]] 2 1 1 = 128"
    using e1 [of 0 1] e1 [of 1 1] by simp
  have s2: "spec_sandwich_entry (spec_adj 3 2 2) [[1, 0], [0, 1]] [[18, 9], [9, 5]] 2 1 0 = 36"
    using e2 [of 1 0] by simp
  have s3: "se_of_varcov [[32, 64], [64, 128]] = Inr [sqrt 32, sqrt 128]"
    using vs nn unfolding V by (simp add: upt_rec numeral_2_eq_2)
  show ?thesis using V1 V2 s1 s2 s3 by blast
qed


subsection \<open>Hypothesis tests\<close>

lemma np_elementwise_same_length:
  assumes "length a = length b"
    and "\<And>p q. (p, q) \<in> set (zip a b) \<Longrightarrow> f p q = Inr (g p q)"
  shows "np_elementwise f a b = Inr (map2 g a b)"
proof -
  have "collect (map (\<lambda>(p, q). f p q) (zip a b)) = Inr (map (\<lambda>(p, q). g p q) (zip a b))"
    by (rule collect_map_cong_Inr) (use assms(2) in auto)
  then show ?thesis using assms(1) by (simp add: np_elementwise_def)
qed

lemma zvalues_s1_spec:
  assumes "length results = length se" and "\<And>s. s \<in> set se \<Longrightarrow> s \<noteq> 0"
  shows "zvalues_s1 results se = Inr (map2 (\<lambda>e s. spec_z e 0 s) results se)"
  unfolding zvalues_s1_def
  by (rule np_elementwise_same_length [OF assms(1)])
     (use assms(2) in \<open>auto simp: np_div_def spec_z_def dest: set_zip_rightD\<close>)

lemma zvalues_1_spec:
  assumes "3 \<le> length r" and "3 \<le> length se" and "\<And>s. s \<in> set (take 3 se) \<Longrightarrow> s \<noteq> 0"
  shows "zvalues_1 r se = Inr (map2 (\<lambda>e s. spec_z e 1 s) (take 3 r) (take 3 se))"
proof -
  have "np_elementwise np_div (map (\<lambda>p. p - 1) (take 3 r)) (take 3 se)
        = Inr (map2 (\<lambda>e s. e / s) (map (\<lambda>p. p - 1) (take 3 r)) (take 3 se))"
    by (rule np_elementwise_same_length)
       (use assms in \<open>auto simp: np_div_def dest: set_zip_rightD\<close>)
  also have "map2 (\<lambda>e s. e / s) (map (\<lambda>p. p - 1) (take 3 r)) (take 3 se)
             = map2 (\<lambda>e s. spec_z e 1 s) (take 3 r) (take 3 se)"
    by (simp add: zip_map1 spec_z_def case_prod_unfold)
  finally show ?thesis by (simp add: zvalues_1_def)
qed

lemma zvalue_a_spec:
  assumes "5 < length r" and "5 < length se" and "se ! 5 \<noteq> 0"
  shows "zvalue_a r se = Inr (spec_z (r ! 5) 0 (se ! 5))"
  using assms by (simp add: zvalue_a_def np_div_def spec_z_def)

lemma map2_nth: "length a = length b \<Longrightarrow> map2 f a b = map (\<lambda>i. f (a ! i) (b ! i)) [0..<length a]"
  by (rule nth_equalityI) simp_all

lemma zvalues_s1s2_spec:
  assumes l1: "length r2 = length r1" and l2: "length se1 = length r1" and l3: "length se2 = length r1"
    and nz: "\<And>i. i < length r1 \<Longrightarrow> se1 ! i \<noteq> 0 \<or> se2 ! i \<noteq> 0"
  shows "zvalues_s1s2 r1 r2 se1 se2
         = Inr (map (\<lambda>i. spec_compare (r1 ! i) (r2 ! i) ((se1 ! i)\<^sup>2) ((se2 ! i)\<^sup>2))
                  [0..<length r1])"
proof -
  let ?num = "map (\<lambda>i. \<bar>r1 ! i - r2 ! i\<bar>) [0..<length r1]"
  let ?den = "map (\<lambda>i. sqrt ((se1 ! i)\<^sup>2 + (se2 ! i)\<^sup>2)) [0..<length r1]"
  have n: "np_elementwise (\<lambda>p q. Inr \<bar>p - q\<bar>) r1 r2 = Inr ?num"
    using np_elementwise_same_length [of r1 r2 "\<lambda>p q. Inr \<bar>p - q\<bar>" "\<lambda>p q. \<bar>p - q\<bar>"] l1
    by (simp add: map2_nth)
  have d: "np_elementwise (\<lambda>p q. Inr (sqrt (p\<^sup>2 + q\<^sup>2))) se1 se2 = Inr ?den"
    using np_elementwise_same_length
      [of se1 se2 "\<lambda>p q. Inr (sqrt (p\<^sup>2 + q\<^sup>2))" "\<lambda>p q. sqrt (p\<^sup>2 + q\<^sup>2)"] l2 l3
    by (simp add: map2_nth)
  have dz: "\<And>q. q \<in> set ?den \<Longrightarrow> q \<noteq> 0"
    using nz by (auto simp: sum_power2_eq_zero_iff)
  have "np_elementwise np_div ?num ?den = Inr (map2 (\<lambda>p q. p / q) ?num ?den)"
  proof (rule np_elementwise_same_length)
    show "length ?num = length ?den" by simp
  next
    fix p q assume "(p, q) \<in> set (zip ?num ?den)"
    then have "q \<in> set ?den" by (rule set_zip_rightD)
    then have "q \<noteq> 0" by (rule dz)
    then show "np_div p q = Inr (p / q)" by (simp add: np_div_def)
  qed
  also have "map2 (\<lambda>p q. p / q) ?num ?den
     = map (\<lambda>i. spec_compare (r1 ! i) (r2 ! i) ((se1 ! i)\<^sup>2) ((se2 ! i)\<^sup>2)) [0..<length r1]"
    by (rule nth_equalityI) (simp_all add: spec_compare_def)
  finally show ?thesis by (simp add: zvalues_s1s2_def bindF_def n d)
qed

lemma spec_compare_nonneg: "0 \<le> spec_compare e1 e2 (s1\<^sup>2) (s2\<^sup>2)"
  by (simp add: spec_compare_def)

text \<open>
  C8. Where the standard errors are not zero, the z-statistics are
  \<open>(estimate - reference) / se\<close>, with reference 0 for every parameter of the
  discrete-choice model and for \<open>alpha\<close> of the effort model and reference 1 for
  \<open>beta\<close>, \<open>betahat\<close> and \<open>delta\<close>; the p-values are \<open>2 (1 - Phi |z|)\<close>. The statistic
  that compares the two sessions is \<open>|e1 - e2| / sqrt (se1^2 + se2^2)\<close>; it is
  non-negative, so its p-value \<open>2 (1 - Phi z)\<close> is the two-sided one as well.
\<close>

theorem hypothesis_tests:
  "(length results = length se \<and> (\<forall>s \<in> set se. s \<noteq> 0)
      \<longrightarrow> zvalues_s1 results se = Inr (map2 (\<lambda>e s. spec_z e 0 s) results se)) \<and>
   (3 \<le> length r \<and> 3 \<le> length sec \<and> (\<forall>s \<in> set (take 3 sec). s \<noteq> 0)
      \<longrightarrow> zvalues_1 r sec = Inr (map2 (\<lambda>e s. spec_z e 1 s) (take 3 r) (take 3 sec))) \<and>
   (5 < length r \<and> 5 < length sec \<and> sec ! 5 \<noteq> 0
      \<longrightarrow> zvalue_a r sec = Inr (spec_z (r ! 5) 0 (sec ! 5))) \<and>
   pvalues lib z = map (spec_pvalue lib) z \<and>
   pvalue_a lib t = spec_pvalue lib t \<and>
   (length r2 = length r1 \<and> length se1 = length r1 \<and> length se2 = length r1 \<and>
    (\<forall>i<length r1. se1 ! i \<noteq> 0 \<or> se2 ! i \<noteq> 0)
      \<longrightarrow> zvalues_s1s2 r1 r2 se1 se2
            = Inr (map (\<lambda>i. spec_compare (r1 ! i) (r2 ! i) ((se1 ! i)\<^sup>2) ((se2 ! i)\<^sup>2))
                     [0..<length r1]) \<and>
          pvalues_s1s2 lib
              (map (\<lambda>i. spec_compare (r1 ! i) (r2 ! i) ((se1 ! i)\<^sup>2) ((se2 ! i)\<^sup>2))
                 [0..<length r1])
            = map (spec_pvalue lib)
                (map (\<lambda>i. spec_compare (r1 ! i) (r2 ! i) ((se1 ! i)\<^sup>2) ((se2 ! i)\<^sup>2))
                   [0..<length r1]))"
proof (intro conjI impI)
  assume "length results = length se \<and> (\<forall>s \<in> set se. s \<noteq> 0)"
  then show "zvalues_s1 results se = Inr (map2 (\<lambda>e s. spec_z e 0 s) results se)"
    by (intro zvalues_s1_spec) simp_all
next
  assume "3 \<le> length r \<and> 3 \<le> length sec \<and> (\<forall>s \<in> set (take 3 sec). s \<noteq> 0)"
  then show "zvalues_1 r sec = Inr (map2 (\<lambda>e s. spec_z e 1 s) (take 3 r) (take 3 sec))"
    by (intro zvalues_1_spec) simp_all
next
  assume "5 < length r \<and> 5 < length sec \<and> sec ! 5 \<noteq> 0"
  then show "zvalue_a r sec = Inr (spec_z (r ! 5) 0 (sec ! 5))"
    by (intro zvalue_a_spec) simp_all
next
  show "pvalues lib z = map (spec_pvalue lib) z"
    by (simp add: pvalues_def spec_pvalue_def)
next
  show "pvalue_a lib t = spec_pvalue lib t"
    by (simp add: pvalue_a_def spec_pvalue_def)
next
  assume "length r2 = length r1 \<and> length se1 = length r1 \<and> length se2 = length r1 \<and>
    (\<forall>i<length r1. se1 ! i \<noteq> 0 \<or> se2 ! i \<noteq> 0)"
  then show "zvalues_s1s2 r1 r2 se1 se2
            = Inr (map (\<lambda>i. spec_compare (r1 ! i) (r2 ! i) ((se1 ! i)\<^sup>2) ((se2 ! i)\<^sup>2))
                     [0..<length r1])"
    by (intro zvalues_s1s2_spec) simp_all
next
  show "pvalues_s1s2 lib
              (map (\<lambda>i. spec_compare (r1 ! i) (r2 ! i) ((se1 ! i)\<^sup>2) ((se2 ! i)\<^sup>2))
                 [0..<length r1])
            = map (spec_pvalue lib)
                (map (\<lambda>i. spec_compare (r1 ! i) (r2 ! i) ((se1 ! i)\<^sup>2) ((se2 ! i)\<^sup>2))
                   [0..<length r1])"
    using spec_compare_nonneg by (simp add: pvalues_s1s2_def spec_pvalue_def)
qed

theorem hypothesis_tests_witness:
  "zvalues_s1 [2, 3] [1, 2] = Inr [2, 3 / 2] \<and>
   zvalues_1 [4 / 5, 1, 2, 2, 500, 7, 40] [1 / 10, 1 / 5, 1 / 2, 1, 1, 2, 1]
     = Inr [- 2, 0, 2] \<and>
   zvalue_a [4 / 5, 1, 2, 2, 500, 7, 40] [1 / 10, 1 / 5, 1 / 2, 1, 1, 2, 1] = Inr (7 / 2) \<and>
   pvalues \<lparr>pdf = gauss_pdf, cdf = logistic\<rparr> [- 2] = [2 * (1 - logistic 2)] \<and>
   zvalues_s1s2 [5, 1] [2, 1] [3, 0] [4, 1] = Inr [3 / 5, 0]"
  using hypothesis_tests
    [of "[2, 3]" "[1, 2]" "[4 / 5, 1, 2, 2, 500, 7, 40]" "[1 / 10, 1 / 5, 1 / 2, 1, 1, 2, 1]"
        "\<lparr>pdf = gauss_pdf, cdf = logistic\<rparr>" "[- 2]" 0 "[2, 1]" "[5, 1]"  "[3, 0]" "[4, 1]"]
  by (simp add: spec_z_def spec_pvalue_def spec_compare_def less_Suc_eq upt_rec numeral_2_eq_2
        numeral_3_eq_3 take_Suc_conv_app_nth)


subsection \<open>The optimizer's convergence flag\<close>

text \<open>
  C9, as the claim states it, fails: an optimizer result that reports failure at the
  iteration cap gives the same estimates and the same log-likelihood as a result that
  reports success at the same point; nothing read from it tells them apart.
\<close>

theorem nonconvergence_counterexample:
  "estimates_ar \<lparr>sol_x = [4 / 5, 1, 1, 2, 500, 7, 40], sol_fun = 30000, sol_success = False,
                 sol_status = 2, sol_message = ''Maximum number of iterations has been exceeded.'',
                 sol_nit = 1500\<rparr>
   = \<lparr>est_res = [4 / 5, 1, 1, 2, 500, 7, 40], est_results = [4 / 5, 1, 1, 2, 500, 7, 40],
      est_loglik = - 30000\<rparr> \<and>
   estimates_ar \<lparr>sol_x = [4 / 5, 1, 1, 2, 500, 7, 40], sol_fun = 30000, sol_success = False,
                 sol_status = 2, sol_message = ''Maximum number of iterations has been exceeded.'',
                 sol_nit = 1500\<rparr>
   = estimates_ar \<lparr>sol_x = [4 / 5, 1, 1, 2, 500, 7, 40], sol_fun = 30000, sol_success = True,
                   sol_status = 0, sol_message = ''Optimization terminated successfully.'',
                   sol_nit = 900\<rparr>"
  by (simp add: estimates_ar_def)

text \<open>
  C9, amended. The notebooks read only the final point \<open>x\<close> and the value \<open>fun\<close> of
  the optimizer's result: the estimate is \<open>x\<close> whatever the convergence flag, the
  status, the message and the iteration count are.
\<close>

theorem optimizer_result_use:
  "estimates_s1 (sol\<lparr>sol_success := b, sol_status := s, sol_message := msg, sol_nit := k\<rparr>)
     = estimates_s1 sol \<and>
   estimates_ar (sol\<lparr>sol_success := b, sol_status := s, sol_message := msg, sol_nit := k\<rparr>)
     = estimates_ar sol \<and>
   est_res (estimates_ar sol) = sol_x sol \<and>
   (sol_x sol \<noteq> [] \<longrightarrow> (\<exists>e. estimates_s1 sol = Inr e \<and> est_res e = sol_x sol))"
  by (simp add: estimates_s1_def estimates_ar_def)

theorem optimizer_result_use_witness:
  "estimates_s1 \<lparr>sol_x = [1 / 10, 1 / 5, 0], sol_fun = 5000, sol_success = False,
                 sol_status = 2, sol_message = ''Maximum number of iterations has been exceeded.'',
                 sol_nit = 1000\<rparr>
   = Inr \<lparr>est_res = [1 / 10, 1 / 5, 0], est_results = [1 / 10, 1 / 5, 1], est_loglik = - 5000\<rparr>"
  using optimizer_result_use
    [where sol = "\<lparr>sol_x = [1 / 10, 1 / 5, 0], sol_fun = 5000, sol_success = True,
                 sol_status = 0, sol_message = ''Optimization terminated successfully.'',
                 sol_nit = 20\<rparr>" and b = False and s = 2 and k = 1000
       and msg = "''Maximum number of iterations has been exceeded.''"]
  by (simp add: estimates_s1_def)

end
